theory Spec2Isabelle
  imports Complex_Main "HOL-Library.Word" "HOL-Library.Log_Nat" "HOL-Library.Monad_Syntax"
begin

section \<open>The texture of the software renderer\<close>

text \<open>
  The class \<open>sr::Texture\<close> (Texture.hpp) owns the bytes of an image and of its mip levels.
  Its unsigned 32-bit fields and arguments are \<open>32 word\<close>, so that \<open>width * height *
  pixelSize\<close> and \<open>level + 1\<close> wrap as they do in the program; a container size
  (\<open>std::size_t\<close>) is a \<open>nat\<close>. A byte buffer is a list of \<open>8 word\<close>.
\<close>

type_synonym u8 = "8 word"
type_synonym u32 = "32 word"

subsection \<open>Pixel formats\<close>

text \<open>
  \<open>enum class PixelFormat\<close> has four enumerators. A value of the enumeration's underlying
  type that is none of them reaches the \<open>default\<close> branches of the program; it is the
  constructor \<open>unmapped\<close>.
\<close>

datatype PixelFormat = r8 | a8 | rgba8 | float32 | unmapped

fun getPixelSize :: "PixelFormat \<Rightarrow> u32" where
  "getPixelSize r8 = 1"
| "getPixelSize a8 = 1"
| "getPixelSize rgba8 = 4"
| "getPixelSize float32 = 4"
| "getPixelSize unmapped = 0"

subsection \<open>Failures\<close>

text \<open>
  The program throws \<open>std::runtime_error\<close> with one of three messages:
  "Invalid pixel format" (\<open>InvalidFormat\<close>), "Invalid buffer size"
  (\<open>InvalidBufferSize\<close>) and "Base image not provided" (\<open>MissingBaseLevel\<close>).
  \<open>OutOfRange\<close> stands for an access outside a vector, or a conversion of a float
  that the target integer type cannot hold: the program has undefined behaviour there.

  An operation that changes the texture returns \<open>Inr\<close> of the new texture, or \<open>Inl\<close>
  of the failure together with the texture as the failure leaves it.
\<close>

datatype error = InvalidFormat | InvalidBufferSize | MissingBaseLevel | OutOfRange

subsection \<open>The texture\<close>

text \<open>
  The fields \<open>minLOD\<close>, \<open>maxLOD\<close> and \<open>lodBias\<close> are initialised and never read or
  written again; they are left out.
\<close>

record Texture =
  pixelFormat :: PixelFormat
  width :: u32
  height :: u32
  mipMaps :: bool
  levels :: "u8 list list"

text \<open>\<open>std::vector<std::uint8_t>(n)\<close>: \<open>n\<close> zero bytes.\<close>

definition zeroBuffer :: "u32 \<Rightarrow> u8 list" where
  "zeroBuffer n = replicate (unat n) 0"

text \<open>
  One step of the halving in the three \<open>while (newWidth > 1 || newHeight > 1)\<close> loops:
  \<open>d >>= 1; if (d < 1) d = 1\<close>.
\<close>

definition halveDim :: "u32 \<Rightarrow> u32" where
  "halveDim d = (let d' = drop_bit 1 d in if d' < 1 then 1 else d')"

text \<open>
  The loop of the constructor and of \<open>resize\<close> (the same text in both): the buffers it
  pushes, in order.
\<close>

function mipChain :: "u32 \<Rightarrow> u32 \<Rightarrow> u32 \<Rightarrow> u8 list list" where
  "mipChain newWidth newHeight pixelSize =
     (if 1 < newWidth \<or> 1 < newHeight
      then zeroBuffer (halveDim newWidth * halveDim newHeight * pixelSize)
             # mipChain (halveDim newWidth) (halveDim newHeight) pixelSize
      else [])"
  by pat_completeness auto
termination
proof (relation "measure (\<lambda>(w, h, p). max (unat w) (unat h))")
  show "wf (measure (\<lambda>(w, h, p). max (unat w) (unat (h::u32))))"
    by simp
next
  fix newWidth newHeight pixelSize :: u32
  assume loop: "1 < newWidth \<or> 1 < newHeight"
  have halved: "unat (halveDim d) = max 1 (unat d div 2)" for d :: u32
    by (simp add: halveDim_def Let_def max_def drop_bit_eq_div unat_div word_less_nat_alt)
  from loop have "1 < unat newWidth \<or> 1 < unat newHeight"
    by (simp add: word_less_nat_alt)
  then have "max (unat (halveDim newWidth)) (unat (halveDim newHeight))
               < max (unat newWidth) (unat newHeight)"
    by (auto simp: halved max_def)
  then show "((halveDim newWidth, halveDim newHeight, pixelSize), (newWidth, newHeight, pixelSize))
             \<in> measure (\<lambda>(w, h, p). max (unat w) (unat h))"
    by simp
qed

declare mipChain.simps [simp del]

text \<open>The constructor \<open>Texture(initPixelFormat, initWidth, initHeight, initMipMaps)\<close>.\<close>

definition Texture_init :: "PixelFormat \<Rightarrow> u32 \<Rightarrow> u32 \<Rightarrow> bool \<Rightarrow> Texture" where
  "Texture_init initPixelFormat initWidth initHeight initMipMaps =
     (let pixelSize = getPixelSize initPixelFormat in
      \<lparr> pixelFormat = initPixelFormat, width = initWidth, height = initHeight,
        mipMaps = initMipMaps,
        levels =
          (if 0 < pixelSize \<and> 0 < initWidth \<and> 0 < initHeight
           then zeroBuffer (initWidth * initHeight * pixelSize)
                  # (if initMipMaps then mipChain initWidth initHeight pixelSize else [])
           else []) \<rparr>)"

text \<open>
  \<open>resize\<close> stores the new dimensions first, then checks the pixel size, then clears the
  levels and allocates.
\<close>

definition resize :: "Texture \<Rightarrow> u32 \<Rightarrow> u32 \<Rightarrow> error \<times> Texture + Texture" where
  "resize t newWidth newHeight =
     (let t1 = t\<lparr>width := newWidth, height := newHeight\<rparr>;
          pixelSize = getPixelSize (pixelFormat t1)
      in if pixelSize = 0 then Inl (InvalidFormat, t1)
         else Inr (t1\<lparr>levels :=
                zeroBuffer (width t1 * height t1 * pixelSize)
                  # (if mipMaps t1 then mipChain (width t1) (height t1) pixelSize else [])\<rparr>))"

text \<open>\<open>std::vector::resize(n)\<close> on the list of levels: cut, or fill with empty buffers.\<close>

definition vresize :: "u8 list list \<Rightarrow> nat \<Rightarrow> u8 list list" where
  "vresize lv n = take n lv @ replicate (n - length lv) []"

text \<open>
  \<open>setData(buffer, level)\<close>. \<open>level + 1\<close> is computed on 32 bits. The assignment
  \<open>levels[level] = buffer\<close> is an unchecked access.
\<close>

definition setData :: "Texture \<Rightarrow> u8 list \<Rightarrow> u32 \<Rightarrow> error \<times> Texture + Texture" where
  "setData t buffer level =
     (let pixelSize = getPixelSize (pixelFormat t) in
      if pixelSize = 0 then Inl (InvalidFormat, t)
      else if length buffer \<noteq> unat (width t * height t * pixelSize)
      then Inl (InvalidBufferSize, t)
      else
        let lv = (if length (levels t) \<le> unat level
                  then vresize (levels t) (unat (level + 1)) else levels t)
        in if unat level < length lv
           then Inr (t\<lparr>levels := lv[unat level := buffer]\<rparr>)
           else Inl (OutOfRange, t\<lparr>levels := lv\<rparr>))"

definition getLevelCount :: "Texture \<Rightarrow> nat" where
  "getLevelCount t = length (levels t)"

subsection \<open>The downsampling kernels\<close>

text \<open>
  The kernels compute colour in \<open>float\<close>. The operations they use are parameters, so that
  what is proved holds for every floating-point arithmetic:
  \<^item> \<open>fzero\<close> is \<open>0.0F\<close>, \<open>fadd\<close> is \<open>+\<close> on \<open>float\<close>;
  \<^item> \<open>fdiv r n\<close> is \<open>r / n\<close> for the divisors the program uses (\<open>2.0F\<close>, \<open>4.0F\<close>, and
    the counter \<open>pixels\<close>, whose values 1 to 4 are exact);
  \<^item> \<open>toLinear p\<close> is \<open>std::pow(p / 255.0F, GAMMA)\<close>;
  \<^item> \<open>fromLinear r\<close> is
    \<open>static_cast<std::uint8_t>(std::round(std::pow(r, 1.0F / GAMMA) * 255.0F))\<close>.

  Alpha is summed in \<open>float\<close> too, but exactly: a sum of at most four bytes is an integer
  below \<open>2^24\<close>, its product with \<open>0.25F\<close> or \<open>0.5F\<close> (its quotient by \<open>4.0F\<close> or
  \<open>2.0F\<close>) is a multiple of a quarter below 256, and the conversion to a byte truncates. So
  the alpha sum is a \<open>nat\<close> and the stored byte is the sum \<open>div\<close> 4 or 2.
\<close>

record 'f FloatOps =
  fzero :: 'f
  fadd :: "'f \<Rightarrow> 'f \<Rightarrow> 'f"
  fdiv :: "'f \<Rightarrow> nat \<Rightarrow> 'f"
  toLinear :: "u8 \<Rightarrow> 'f"
  fromLinear :: "'f \<Rightarrow> u8"

text \<open>
  The kernels read and write through raw pointers. \<open>rd\<close> and \<open>store\<close> are those accesses
  with the bounds of the vector behind the pointer: \<open>None\<close> where the program reads or writes
  outside it.
\<close>

definition rd :: "u8 list \<Rightarrow> nat \<Rightarrow> u8 option" where
  "rd src i = (if i < length src then Some (src ! i) else None)"

definition store :: "u8 list \<Rightarrow> nat \<Rightarrow> u8 list \<Rightarrow> u8 list option" where
  "store dst d out =
     (if d + length out \<le> length dst
      then Some (take d dst @ out @ drop (d + length out) dst) else None)"

text \<open>
  One source sample of the RGBA8 kernel, at \<open>pixel[e + 0 .. e + 3]\<close>, where \<open>pixel\<close> is
  the offset \<open>p\<close> into \<open>src\<close> and the index \<open>e + k\<close> is computed on 32 bits when \<open>e\<close>
  involves \<open>pitch\<close>:
  \<^verbatim>\<open>if (pixel[e + 3] > 0) { r += pow(pixel[e + 0] / 255.0F, GAMMA); g += ...; b += ...;
                          pixels += 1.0F; }
  a += pixel[e + 3];\<close>
  The accumulator is \<open>(pixels, r, g, b, a)\<close>.
\<close>

type_synonym 'f rgbaAcc = "nat \<times> 'f \<times> 'f \<times> 'f \<times> nat"

definition addSample ::
  "'f FloatOps \<Rightarrow> u8 list \<Rightarrow> nat \<Rightarrow> u32 \<Rightarrow> 'f rgbaAcc \<Rightarrow> 'f rgbaAcc option" where
  "addSample F src p e acc =
     (case acc of (pixels, r, g, b, a) \<Rightarrow>
        do {
          p3 \<leftarrow> rd src (p + unat (e + 3));
          if 0 < p3 then
            do {
              p0 \<leftarrow> rd src (p + unat (e + 0));
              p1 \<leftarrow> rd src (p + unat (e + 1));
              p2 \<leftarrow> rd src (p + unat (e + 2));
              Some (pixels + 1, fadd F r (toLinear F p0), fadd F g (toLinear F p1),
                    fadd F b (toLinear F p2), a + unat p3)
            }
          else Some (pixels, r, g, b, a + unat p3)
        })"

text \<open>
  The end of the body: \<open>n\<close> is 4 where the program has \<open>a *= 0.25F\<close> and 2 where it has
  \<open>a *= 0.5F\<close>. The result is the four bytes written to \<open>dst[0 .. 3]\<close>.
\<close>

definition storeRGBA :: "'f FloatOps \<Rightarrow> 'f rgbaAcc \<Rightarrow> nat \<Rightarrow> u8 list" where
  "storeRGBA F acc n =
     (case acc of (pixels, r, g, b, a) \<Rightarrow>
        if 0 < pixels
        then [fromLinear F (fdiv F r pixels), fromLinear F (fdiv F g pixels),
              fromLinear F (fdiv F b pixels), of_nat (a div n)]
        else [0, 0, 0, 0])"

definition rgbaZero :: "'f FloatOps \<Rightarrow> 'f rgbaAcc" where
  "rgbaZero F = (0, fzero F, fzero F, fzero F, 0)"

text \<open>The three bodies of the RGBA8 kernel: a 2x2 block, a column pair, a row pair.\<close>

definition quadRGBA :: "'f FloatOps \<Rightarrow> u8 list \<Rightarrow> u32 \<Rightarrow> nat \<Rightarrow> u8 list option" where
  "quadRGBA F src pitch p =
     do {
       acc1 \<leftarrow> addSample F src p 0 (rgbaZero F);
       acc2 \<leftarrow> addSample F src p 4 acc1;
       acc3 \<leftarrow> addSample F src p pitch acc2;
       acc4 \<leftarrow> addSample F src p (pitch + 4) acc3;
       Some (storeRGBA F acc4 4)
     }"

definition vpairRGBA :: "'f FloatOps \<Rightarrow> u8 list \<Rightarrow> u32 \<Rightarrow> nat \<Rightarrow> u8 list option" where
  "vpairRGBA F src pitch p =
     do {
       acc1 \<leftarrow> addSample F src p 0 (rgbaZero F);
       acc2 \<leftarrow> addSample F src p pitch acc1;
       Some (storeRGBA F acc2 2)
     }"

definition hpairRGBA :: "'f FloatOps \<Rightarrow> u8 list \<Rightarrow> nat \<Rightarrow> u8 list option" where
  "hpairRGBA F src p =
     do {
       acc1 \<leftarrow> addSample F src p 0 (rgbaZero F);
       acc2 \<leftarrow> addSample F src p 4 acc1;
       Some (storeRGBA F acc2 2)
     }"

text \<open>The bodies of the R8 kernel (\<open>r += pow(pixel[i] / 255.0F, GAMMA)\<close>, then the division).\<close>

definition quadR8 :: "'f FloatOps \<Rightarrow> u8 list \<Rightarrow> u32 \<Rightarrow> nat \<Rightarrow> u8 list option" where
  "quadR8 F src pitch p =
     do {
       b0 \<leftarrow> rd src (p + 0);
       b1 \<leftarrow> rd src (p + 1);
       b2 \<leftarrow> rd src (p + unat (pitch + 0));
       b3 \<leftarrow> rd src (p + unat (pitch + 1));
       Some [fromLinear F (fdiv F
               (fadd F (fadd F (fadd F (fadd F (fzero F) (toLinear F b0)) (toLinear F b1))
                  (toLinear F b2)) (toLinear F b3)) 4)]
     }"

definition vpairR8 :: "'f FloatOps \<Rightarrow> u8 list \<Rightarrow> u32 \<Rightarrow> nat \<Rightarrow> u8 list option" where
  "vpairR8 F src pitch p =
     do {
       b0 \<leftarrow> rd src (p + 0);
       b1 \<leftarrow> rd src (p + unat (pitch + 0));
       Some [fromLinear F (fdiv F (fadd F (fadd F (fzero F) (toLinear F b0)) (toLinear F b1)) 2)]
     }"

definition hpairR8 :: "'f FloatOps \<Rightarrow> u8 list \<Rightarrow> nat \<Rightarrow> u8 list option" where
  "hpairR8 F src p =
     do {
       b0 \<leftarrow> rd src (p + 0);
       b1 \<leftarrow> rd src (p + 1);
       Some [fromLinear F (fdiv F (fadd F (fadd F (fzero F) (toLinear F b0)) (toLinear F b1)) 2)]
     }"

text \<open>The bodies of the A8 kernel: the truncated mean of the bytes.\<close>

definition quadA8 :: "u8 list \<Rightarrow> u32 \<Rightarrow> nat \<Rightarrow> u8 list option" where
  "quadA8 src pitch p =
     do {
       b0 \<leftarrow> rd src (p + 0);
       b1 \<leftarrow> rd src (p + 1);
       b2 \<leftarrow> rd src (p + unat (pitch + 0));
       b3 \<leftarrow> rd src (p + unat (pitch + 1));
       Some [of_nat ((unat b0 + unat b1 + unat b2 + unat b3) div 4)]
     }"

definition vpairA8 :: "u8 list \<Rightarrow> u32 \<Rightarrow> nat \<Rightarrow> u8 list option" where
  "vpairA8 src pitch p =
     do {
       b0 \<leftarrow> rd src (p + 0);
       b1 \<leftarrow> rd src (p + unat (pitch + 0));
       Some [of_nat ((unat b0 + unat b1) div 2)]
     }"

definition hpairA8 :: "u8 list \<Rightarrow> nat \<Rightarrow> u8 list option" where
  "hpairA8 src p =
     do {
       b0 \<leftarrow> rd src (p + 0);
       b1 \<leftarrow> rd src (p + 1);
       Some [of_nat ((unat b0 + unat b1) div 2)]
     }"

text \<open>
  The loops. \<open>pixelLoop body n step p d dst\<close> runs \<open>n\<close> times: it computes the bytes
  of one destination pixel from the source at offset \<open>p\<close>, writes them at offset \<open>d\<close> of
  the destination, and advances \<open>p\<close> by \<open>step\<close> and \<open>d\<close> by the bytes written. It returns the
  destination offset it ends at and the destination. \<open>rowLoop\<close> is the outer loop of the
  two-dimensional case: \<open>m\<close> rows of \<open>w\<close> pixels, the source advancing by \<open>ystep\<close> per row
  and the destination pointer running on from row to row.
\<close>

fun pixelLoop ::
  "(nat \<Rightarrow> u8 list option) \<Rightarrow> nat \<Rightarrow> nat \<Rightarrow> nat \<Rightarrow> nat \<Rightarrow> u8 list \<Rightarrow> (nat \<times> u8 list) option" where
  "pixelLoop body 0 step p d dst = Some (d, dst)"
| "pixelLoop body (Suc n) step p d dst =
     (case body p of
        None \<Rightarrow> None
      | Some out \<Rightarrow>
          (case store dst d out of
             None \<Rightarrow> None
           | Some dst' \<Rightarrow> pixelLoop body n step (p + step) (d + length out) dst'))"

fun rowLoop ::
  "(nat \<Rightarrow> u8 list option) \<Rightarrow> nat \<Rightarrow> nat \<Rightarrow> nat \<Rightarrow> nat \<Rightarrow> nat \<Rightarrow> nat \<Rightarrow> u8 list
     \<Rightarrow> (nat \<times> u8 list) option" where
  "rowLoop body 0 w ystep xstep s d dst = Some (d, dst)"
| "rowLoop body (Suc m) w ystep xstep s d dst =
     (case pixelLoop body w xstep s d dst of
        None \<Rightarrow> None
      | Some (d', dst') \<Rightarrow> rowLoop body m w ystep xstep (s + ystep) d' dst')"

text \<open>
  The kernels proper; their parameters \<open>width\<close> and \<open>height\<close> are \<open>srcWidth\<close> and
  \<open>srcHeight\<close> here. \<open>ystep = pitch * 2\<close> is a 32-bit product. Each returns the destination
  buffer after the run, or \<open>None\<close> when an access leaves a buffer.
\<close>

definition imageRGBA8Downsample2x2 ::
  "'f FloatOps \<Rightarrow> u32 \<Rightarrow> u32 \<Rightarrow> u32 \<Rightarrow> u8 list \<Rightarrow> u8 list \<Rightarrow> u8 list option" where
  "imageRGBA8Downsample2x2 F srcWidth srcHeight pitch src dst =
     (let dstWidth = drop_bit 1 srcWidth; dstHeight = drop_bit 1 srcHeight in
      if 0 < dstWidth \<and> 0 < dstHeight
      then map_option snd
             (rowLoop (quadRGBA F src pitch) (unat dstHeight) (unat dstWidth)
                (unat (pitch * 2)) 8 0 0 dst)
      else if 0 < dstHeight
      then map_option snd
             (pixelLoop (vpairRGBA F src pitch) (unat dstHeight) (unat (pitch * 2)) 0 0 dst)
      else if 0 < dstWidth
      then map_option snd (pixelLoop (hpairRGBA F src) (unat dstWidth) 8 0 0 dst)
      else Some dst)"

definition imageR8Downsample2x2 ::
  "'f FloatOps \<Rightarrow> u32 \<Rightarrow> u32 \<Rightarrow> u32 \<Rightarrow> u8 list \<Rightarrow> u8 list \<Rightarrow> u8 list option" where
  "imageR8Downsample2x2 F srcWidth srcHeight pitch src dst =
     (let dstWidth = drop_bit 1 srcWidth; dstHeight = drop_bit 1 srcHeight in
      if 0 < dstWidth \<and> 0 < dstHeight
      then map_option snd
             (rowLoop (quadR8 F src pitch) (unat dstHeight) (unat dstWidth)
                (unat (pitch * 2)) 2 0 0 dst)
      else if 0 < dstHeight
      then map_option snd
             (pixelLoop (vpairR8 F src pitch) (unat dstHeight) (unat (pitch * 2)) 0 0 dst)
      else if 0 < dstWidth
      then map_option snd (pixelLoop (hpairR8 F src) (unat dstWidth) 2 0 0 dst)
      else Some dst)"

definition imageA8Downsample2x2 ::
  "u32 \<Rightarrow> u32 \<Rightarrow> u32 \<Rightarrow> u8 list \<Rightarrow> u8 list \<Rightarrow> u8 list option" where
  "imageA8Downsample2x2 srcWidth srcHeight pitch src dst =
     (let dstWidth = drop_bit 1 srcWidth; dstHeight = drop_bit 1 srcHeight in
      if 0 < dstWidth \<and> 0 < dstHeight
      then map_option snd
             (rowLoop (quadA8 src pitch) (unat dstHeight) (unat dstWidth)
                (unat (pitch * 2)) 2 0 0 dst)
      else if 0 < dstHeight
      then map_option snd
             (pixelLoop (vpairA8 src pitch) (unat dstHeight) (unat (pitch * 2)) 0 0 dst)
      else if 0 < dstWidth
      then map_option snd (pixelLoop (hpairA8 src) (unat dstWidth) 2 0 0 dst)
      else Some dst)"

subsection \<open>generateMipMaps\<close>

text \<open>
  The \<open>switch\<close> inside the loop of \<open>generateMipMaps\<close>: the kernel of the format reads
  \<open>levels[level - 1]\<close> and writes \<open>levels[level]\<close>; every other format throws.
\<close>

definition downsampleLevel ::
  "'f FloatOps \<Rightarrow> PixelFormat \<Rightarrow> u32 \<Rightarrow> u32 \<Rightarrow> u8 list \<Rightarrow> u8 list \<Rightarrow> error + u8 list" where
  "downsampleLevel F fmt previousWidth previousHeight src dst =
     (case fmt of
        rgba8 \<Rightarrow>
          (case imageRGBA8Downsample2x2 F previousWidth previousHeight (previousWidth * 4) src dst
           of None \<Rightarrow> Inl OutOfRange | Some dst' \<Rightarrow> Inr dst')
      | r8 \<Rightarrow>
          (case imageR8Downsample2x2 F previousWidth previousHeight (previousWidth * 1) src dst
           of None \<Rightarrow> Inl OutOfRange | Some dst' \<Rightarrow> Inr dst')
      | a8 \<Rightarrow>
          (case imageA8Downsample2x2 previousWidth previousHeight (previousWidth * 1) src dst
           of None \<Rightarrow> Inl OutOfRange | Some dst' \<Rightarrow> Inr dst')
      | _ \<Rightarrow> Inl InvalidFormat)"

text \<open>
  The loop of \<open>generateMipMaps\<close>, on the list of levels. \<open>level\<close> is a \<open>std::size_t\<close>
  that starts at 1. A level that is missing is pushed before the \<open>switch\<close>, so a failure
  of the \<open>switch\<close> leaves it in the list.
\<close>

function mipLoop ::
  "'f FloatOps \<Rightarrow> PixelFormat \<Rightarrow> u32 \<Rightarrow> u32 \<Rightarrow> u32 \<Rightarrow> u32 \<Rightarrow> u32 \<Rightarrow> nat \<Rightarrow> u8 list list
     \<Rightarrow> error \<times> u8 list list + u8 list list" where
  "mipLoop F fmt pixelSize newWidth newHeight previousWidth previousHeight level lv =
     (if 1 < newWidth \<or> 1 < newHeight
      then
        (let lv1 = (if length lv \<le> level
                    then lv @ [zeroBuffer (halveDim newWidth * halveDim newHeight * pixelSize)]
                    else lv)
         in if level = 0 \<or> length lv1 \<le> level then Inl (OutOfRange, lv1)
            else
              (case downsampleLevel F fmt previousWidth previousHeight
                      (lv1 ! (level - 1)) (lv1 ! level) of
                 Inl e \<Rightarrow> Inl (e, lv1)
               | Inr dst' \<Rightarrow>
                   mipLoop F fmt pixelSize (halveDim newWidth) (halveDim newHeight)
                     (halveDim newWidth) (halveDim newHeight) (Suc level) (lv1[level := dst'])))
      else Inr lv)"
  by pat_completeness auto
termination
proof (relation "measure (\<lambda>(F, fmt, ps, w, h, pw, ph, l, lv). max (unat w) (unat h))")
  show "wf (measure (\<lambda>(F :: 'f FloatOps, fmt :: PixelFormat, ps :: u32, w :: u32, h :: u32,
                        pw :: u32, ph :: u32, l :: nat, lv :: u8 list list).
                      max (unat w) (unat h)))"
    by simp
next
  fix F :: "'f FloatOps" and fmt :: PixelFormat
    and pixelSize newWidth newHeight previousWidth previousHeight :: u32
    and level :: nat and lv lv1 :: "u8 list list" and dst' :: "u8 list"
  assume loop: "1 < newWidth \<or> 1 < newHeight"
  have halved: "unat (halveDim d) = max 1 (unat d div 2)" for d :: u32
    by (simp add: halveDim_def Let_def max_def drop_bit_eq_div unat_div word_less_nat_alt)
  from loop have "1 < unat newWidth \<or> 1 < unat newHeight"
    by (simp add: word_less_nat_alt)
  then have "max (unat (halveDim newWidth)) (unat (halveDim newHeight))
               < max (unat newWidth) (unat newHeight)"
    by (auto simp: halved max_def)
  then show "((F, fmt, pixelSize, halveDim newWidth, halveDim newHeight, halveDim newWidth,
               halveDim newHeight, Suc level, lv1[level := dst']),
              (F, fmt, pixelSize, newWidth, newHeight, previousWidth, previousHeight, level, lv))
             \<in> measure (\<lambda>(F, fmt, ps, w, h, pw, ph, l, lv). max (unat w) (unat h))"
    by simp
qed

declare mipLoop.simps [simp del]

definition generateMipMaps :: "'f FloatOps \<Rightarrow> Texture \<Rightarrow> error \<times> Texture + Texture" where
  "generateMipMaps F t =
     (let pixelSize = getPixelSize (pixelFormat t) in
      if pixelSize = 0 then Inl (InvalidFormat, t)
      else if levels t = [] then Inl (MissingBaseLevel, t)
      else
        (case mipLoop F (pixelFormat t) pixelSize (width t) (height t) (width t) (height t)
                1 (levels t) of
           Inl (e, lv) \<Rightarrow> Inl (e, t\<lparr>levels := lv\<rparr>)
         | Inr lv \<Rightarrow> Inr (t\<lparr>levels := lv\<rparr>)))"

subsection \<open>Reading a pixel and sampling\<close>

text \<open>
  \<open>getPixel\<close> and \<open>sample\<close> compute in \<open>float\<close>. Here a \<open>float\<close> is the real number it
  denotes and the operations are exact: rounding to binary32 is not modelled. What is
  evaluated below is evaluated at inputs where every intermediate value is a binary32 number
  (a small multiple of a power of two), so that the program computes the same values.

  \<open>Color\<close> is the class of Color.hpp with \<open>float\<close> channels \<open>r\<close>, \<open>g\<close>, \<open>b\<close>, \<open>a\<close>;
  \<open>byteColor\<close> is its constructor from four bytes, \<open>defaultColor\<close> its default constructor.
\<close>

record Color =
  colorR :: real
  colorG :: real
  colorB :: real
  colorA :: real

definition defaultColor :: Color where
  "defaultColor = \<lparr>colorR = 0, colorG = 0, colorB = 0, colorA = 0\<rparr>"

definition byteColor :: "u8 \<Rightarrow> u8 \<Rightarrow> u8 \<Rightarrow> u8 \<Rightarrow> Color" where
  "byteColor red green blue alpha =
     \<lparr>colorR = real (unat red) / 255, colorG = real (unat green) / 255,
      colorB = real (unat blue) / 255, colorA = real (unat alpha) / 255\<rparr>"

text \<open>
  \<open>getPixel(x, y, level)\<close>. The index \<open>(y * width + x) * n\<close> is a 32-bit value; the accesses
  to \<open>levels\<close> and to the buffer are unchecked in the program. For \<open>float32\<close> the four bytes
  of the pixel are read as one \<open>float\<close>: that reading is the parameter \<open>f32\<close>.
\<close>

definition getPixel ::
  "(u8 \<Rightarrow> u8 \<Rightarrow> u8 \<Rightarrow> u8 \<Rightarrow> real) \<Rightarrow> Texture \<Rightarrow> u32 \<Rightarrow> u32 \<Rightarrow> u32 \<Rightarrow> error + Color" where
  "getPixel f32 t x y level =
     (if length (levels t) \<le> unat level then Inl OutOfRange
      else
        let buffer = levels t ! unat level in
        case pixelFormat t of
          r8 \<Rightarrow>
            (case rd buffer (unat ((y * width t + x) * 1)) of
               None \<Rightarrow> Inl OutOfRange
             | Some r \<Rightarrow> Inr (byteColor r r r 255))
        | a8 \<Rightarrow>
            (case rd buffer (unat ((y * width t + x) * 1)) of
               None \<Rightarrow> Inl OutOfRange
             | Some a \<Rightarrow> Inr (byteColor 0 0 0 a))
        | rgba8 \<Rightarrow>
            (let i = unat ((y * width t + x) * 4) in
             if i + 3 < length buffer
             then Inr (byteColor (buffer ! i) (buffer ! (i + 1)) (buffer ! (i + 2)) (buffer ! (i + 3)))
             else Inl OutOfRange)
        | float32 \<Rightarrow>
            (let i = 4 * unat (y * width t + x) in
             if i + 3 < length buffer
             then
               (let f = f32 (buffer ! i) (buffer ! (i + 1)) (buffer ! (i + 2)) (buffer ! (i + 3))
                in Inr \<lparr>colorR = f, colorG = f, colorB = f, colorA = 1\<rparr>)
             else Inl OutOfRange)
        | unmapped \<Rightarrow> Inl InvalidFormat)"

text \<open>
  Modelled from the spec: \<open>Sampler.hpp\<close> is not among the sources. The sampler carries one
  address mode per axis and a filter; the modes are clamp, repeat and mirror, and
  \<open>sample\<close> has a last branch for any other value (\<open>unsetMode\<close>); the filters are point and
  bilinear (\<open>sample\<close> treats every filter but point alike).
\<close>

datatype AddressMode = clampMode | repeatMode | mirrorMode | unsetMode

datatype Filter = point | bilinear

record Sampler =
  addressModeX :: AddressMode
  addressModeY :: AddressMode
  filterMode :: Filter

text \<open>\<open>clamp\<close> of MathUtils.hpp.\<close>

definition clamp :: "'a::linorder \<Rightarrow> 'a \<Rightarrow> 'a \<Rightarrow> 'a" where
  "clamp x lo hi = (if x < lo then lo else if hi < x then hi else x)"

text \<open>
  \<open>std::fmod\<close> (the remainder has the sign of \<open>x\<close>), \<open>std::round\<close> (halves away from
  zero), and \<open>static_cast<std::uint32_t>\<close> of a float (truncation; undefined when the
  truncated value is not a 32-bit unsigned number).
\<close>

definition truncate :: "real \<Rightarrow> int" where
  "truncate x = (if 0 \<le> x then \<lfloor>x\<rfloor> else \<lceil>x\<rceil>)"

definition fmod :: "real \<Rightarrow> real \<Rightarrow> real" where
  "fmod x y = x - y * of_int (truncate (x / y))"

definition cround :: "real \<Rightarrow> int" where
  "cround x = (if 0 \<le> x then \<lfloor>x + 1 / 2\<rfloor> else \<lceil>x - 1 / 2\<rceil>)"

definition toU32 :: "real \<Rightarrow> u32 option" where
  "toU32 x = (if 0 \<le> truncate x \<and> truncate x < 2 ^ 32 then Some (word_of_int (truncate x)) else None)"

text \<open>
  The texel-space coordinate of one axis, as \<open>sample\<close> computes \<open>u\<close> from \<open>coord.v[0]\<close>,
  \<open>addressModeX\<close> and \<open>width\<close>, and \<open>v\<close> from \<open>coord.v[1]\<close>, \<open>addressModeY\<close> and \<open>height\<close>
  (the same expression twice). \<open>d - 1\<close> is a 32-bit difference, converted to \<open>float\<close>.
\<close>

definition texelCoord :: "AddressMode \<Rightarrow> real \<Rightarrow> u32 \<Rightarrow> real" where
  "texelCoord mode c d =
     (if mode = clampMode then clamp c 0 1 * real (unat (d - 1))
      else if mode = repeatMode then fmod c 1 * real (unat (d - 1))
      else if mode = mirrorMode then 1 - 2 * \<bar>fmod (c / 2) 1 - 1 / 2\<bar> * real (unat (d - 1))
      else 0)"

definition blend :: "Color \<Rightarrow> Color \<Rightarrow> Color \<Rightarrow> Color \<Rightarrow> real \<Rightarrow> real \<Rightarrow> real \<Rightarrow> real \<Rightarrow> Color" where
  "blend c0 c1 c2 c3 x0 y0 x1 y1 =
     \<lparr>colorR = colorR c0 * x1 * y1 + colorR c1 * x0 * y1 + colorR c2 * x1 * y0 + colorR c3 * x0 * y0,
      colorG = colorG c0 * x1 * y1 + colorG c1 * x0 * y1 + colorG c2 * x1 * y0 + colorG c3 * x0 * y0,
      colorB = colorB c0 * x1 * y1 + colorB c1 * x0 * y1 + colorB c2 * x1 * y0 + colorB c3 * x0 * y0,
      colorA = colorA c0 * x1 * y1 + colorA c1 * x0 * y1 + colorA c2 * x1 * y0 + colorA c3 * x0 * y0\<rparr>"

text \<open>
  \<open>sample(sampler, coord)\<close>; a null \<open>sampler\<close> is \<open>None\<close>. The four pixels of the bilinear
  branch are fetched in the order of the array initialiser.
\<close>

definition sample ::
  "(u8 \<Rightarrow> u8 \<Rightarrow> u8 \<Rightarrow> u8 \<Rightarrow> real) \<Rightarrow> Texture \<Rightarrow> Sampler option \<Rightarrow> real \<times> real \<Rightarrow> error + Color" where
  "sample f32 t sampler coord =
     (case sampler of
        None \<Rightarrow> Inr defaultColor
      | Some s \<Rightarrow>
          if levels t = [] then Inr defaultColor
          else
            let u = texelCoord (addressModeX s) (fst coord) (width t);
                v = texelCoord (addressModeY s) (snd coord) (height t)
            in
              if filterMode s = point then
                (case toU32 (of_int (cround u)) of
                   None \<Rightarrow> Inl OutOfRange
                 | Some textureX \<Rightarrow>
                     (case toU32 (of_int (cround v)) of
                        None \<Rightarrow> Inl OutOfRange
                      | Some textureY \<Rightarrow> getPixel f32 t textureX textureY 0))
              else
                (case toU32 (u - 1 / 2) of
                   None \<Rightarrow> Inl OutOfRange
                 | Some tx0 \<Rightarrow>
                     (case toU32 (v - 1 / 2) of
                        None \<Rightarrow> Inl OutOfRange
                      | Some ty0 \<Rightarrow>
                          let textureX0 = clamp tx0 0 (width t - 1);
                              textureX1 = clamp (tx0 + 1) 0 (width t - 1);
                              textureY0 = clamp ty0 0 (height t - 1);
                              textureY1 = clamp (ty0 + 1) 0 (height t - 1)
                          in
                            (case getPixel f32 t textureX0 textureY0 0 of
                               Inl e \<Rightarrow> Inl e
                             | Inr c0 \<Rightarrow>
                            (case getPixel f32 t textureX1 textureY0 0 of
                               Inl e \<Rightarrow> Inl e
                             | Inr c1 \<Rightarrow>
                            (case getPixel f32 t textureX0 textureY1 0 of
                               Inl e \<Rightarrow> Inl e
                             | Inr c2 \<Rightarrow>
                            (case getPixel f32 t textureX1 textureY1 0 of
                               Inl e \<Rightarrow> Inl e
                             | Inr c3 \<Rightarrow>
                                 Inr (blend c0 c1 c2 c3
                                        (u - (real (unat textureX0) + 1 / 2))
                                        (v - (real (unat textureY0) + 1 / 2))
                                        ((real (unat textureX0) + 3 / 2) - u)
                                        ((real (unat textureY0) + 3 / 2) - v)))))))))"

subsection \<open>An exact arithmetic\<close>

text \<open>
  The operations of the kernels over the reals, without rounding: the instance of
  \<open>FloatOps\<close> used where a statement needs a concrete arithmetic. \<open>GAMMA\<close> is 2.2.
\<close>

definition exactOps :: "real FloatOps" where
  "exactOps =
     \<lparr> fzero = 0, fadd = (+), fdiv = (\<lambda>r n. r / real n),
       toLinear = (\<lambda>p. (real (unat p) / 255) powr (22 / 10)),
       fromLinear = (\<lambda>r. word_of_int (cround (r powr (10 / 22) * 255))) \<rparr>"

subsection \<open>What a destination pixel of the RGBA8 kernel is made of\<close>










text \<open>The alpha byte of every sample in \<open>es\<close> lies inside \<open>src\<close>.\<close>

definition alphaInside :: "u8 list \<Rightarrow> nat \<Rightarrow> u32 list \<Rightarrow> bool" where
  "alphaInside src P es = list_all (\<lambda>e. P + unat (e + 3) < length src) es"


text \<open>
  The dimensions of level \<open>j\<close>, as the loop of \<open>generateMipMaps\<close> reaches them: the
  dimensions of the texture halved \<open>j\<close> times. Level \<open>j + 1\<close> is generated from level \<open>j\<close>
  when one of them exceeds 1.
\<close>

definition levelWidth :: "Texture \<Rightarrow> nat \<Rightarrow> u32" where
  "levelWidth t j = (halveDim ^^ j) (width t)"

definition levelHeight :: "Texture \<Rightarrow> nat \<Rightarrow> u32" where
  "levelHeight t j = (halveDim ^^ j) (height t)"

text \<open>
  The number of bytes of the pixels of level \<open>j\<close>: the product of its dimensions and of
  the pixel size of the format, as natural numbers.
\<close>

definition levelBytes :: "Texture \<Rightarrow> nat \<Rightarrow> nat" where
  "levelBytes t j =
     unat (levelWidth t j) * unat (levelHeight t j) * unat (getPixelSize (pixelFormat t))"

text \<open>
  The texture has its base level, and every level it has holds at least the pixels of its
  dimensions.
\<close>

definition levelsHold :: "Texture \<Rightarrow> bool" where
  "levelsHold t =
     (levels t \<noteq> []
      \<and> list_all (\<lambda>j. levelBytes t j \<le> length (levels t ! j)) [0..<length (levels t)])"

subsection \<open>A texture with its pyramid allocated\<close>

text \<open>
  The state of a texture constructed with mip levels on which \<open>setData\<close> may have replaced
  levels but has not extended the list: it has as many levels as the constructor
  allocates for its format and dimensions, and none is shorter than allocated.
\<close>

definition pyramidAllocated :: "Texture \<Rightarrow> bool" where
  "pyramidAllocated t =
     list_all2 (\<lambda>b c. length c \<le> length b) (levels t)
       (levels (Texture_init (pixelFormat t) (width t) (height t) True))"

section \<open>Properties\<close>

subsection \<open>Halving and 32-bit arithmetic\<close>

lemma halveDim_unat: "unat (halveDim d) = max 1 (unat d div 2)"
  by (simp add: halveDim_def Let_def max_def drop_bit_eq_div unat_div word_less_nat_alt)

lemma halving_decreases:
  assumes "1 < w \<or> 1 < h"
  shows "max (unat (halveDim w)) (unat (halveDim h)) < max (unat w) (unat (h::u32))"
proof -
  from assms have "1 < unat w \<or> 1 < unat h"
    by (simp add: word_less_nat_alt)
  then show ?thesis
    by (auto simp: halveDim_unat max_def)
qed

lemma halveDim_ge_1: "1 \<le> halveDim d"
  by (simp add: word_le_nat_alt halveDim_unat)

lemma halveDim_le: "1 \<le> d \<Longrightarrow> unat (halveDim d) \<le> unat d"
  by (simp add: word_le_nat_alt halveDim_unat)

lemma drop_bit_1_pos: "(0 < drop_bit 1 (w::u32)) = (1 < w)"
proof -
  have "unat (drop_bit 1 w) = unat w div 2"
    by (simp add: drop_bit_eq_div unat_div)
  then show ?thesis
    by (auto simp add: word_less_nat_alt)
qed

lemma drop_bit_Suc0_pos: "(0 < drop_bit (Suc 0) (w::u32)) = (1 < w)"
  using drop_bit_1_pos [of w] by simp

lemma halveDim_big: "1 < w \<Longrightarrow> halveDim w = drop_bit 1 w"
  using drop_bit_1_pos [of w]
  by (auto simp add: halveDim_def Let_def word_less_nat_alt)

lemma halveDim_small: "\<not> 1 < w \<Longrightarrow> halveDim w = 1"
  using drop_bit_1_pos [of w]
  by (auto simp add: halveDim_def Let_def word_less_nat_alt)

lemma funpow_halveDim_small: "\<not> 1 < w \<Longrightarrow> \<not> 1 < (halveDim ^^ j) w"
proof (induction j)
  case 0
  then show ?case by simp
next
  case (Suc j)
  then have "halveDim ((halveDim ^^ j) w) = 1"
    by (simp add: halveDim_small)
  then show ?case by simp
qed

lemma unat_drop_bit_1: "unat (drop_bit 1 (w::u32)) = unat w div 2"
  by (simp add: drop_bit_eq_div unat_div)

lemma word_le_1: "1 \<le> (w::u32) \<Longrightarrow> \<not> 1 < w \<Longrightarrow> w = 1"
  by (simp add: not_less)

lemma unat_plus_small:
  "unat (e :: u32) + n < 2 ^ 32 \<Longrightarrow> unat (e + of_nat n) = unat e + n"
  by (simp add: unat_word_ariths unat_of_nat take_bit_eq_mod)

lemma unat_mult3:
  assumes "unat a * unat b * unat c < 2 ^ 32" and "c \<noteq> 0"
  shows "unat (a * b * (c::u32)) = unat a * unat b * unat c"
proof -
  from assms(2) have "1 \<le> unat c"
    by (simp add: unat_gt_0 Suc_le_eq)
  then have "unat a * unat b * 1 \<le> unat a * unat b * unat c"
    by (rule mult_le_mono2)
  then have "unat a * unat b \<le> unat a * unat b * unat c"
    by (simp only: mult_1_right)
  then have ab: "unat a * unat b < 2 ^ 32"
    using assms(1) by (rule le_less_trans)
  then have "unat (a * b) = unat a * unat b"
    by (simp add: unat_mult_lem [THEN iffD1])
  with assms(1) show ?thesis
    by (simp add: unat_mult_lem [THEN iffD1])
qed

lemma unat_mult3_le: "unat (a * b * (c::u32)) \<le> unat a * unat b * unat c"
proof -
  have "unat (a * b * c) \<le> unat (a * b) * unat c"
    by (simp add: unat_word_ariths)
  also have "\<dots> \<le> unat a * unat b * unat c"
    by (intro mult_le_mono1) (simp add: unat_word_ariths)
  finally show ?thesis .
qed

subsection \<open>Construction and resize\<close>

lemma resize_matches_constructor:
  assumes "getPixelSize (pixelFormat t) \<noteq> 0" and "0 < newWidth" and "0 < newHeight"
  shows "resize t newWidth newHeight
           = Inr (Texture_init (pixelFormat t) newWidth newHeight (mipMaps t))"
  using assms by (simp add: resize_def Texture_init_def Let_def word_greater_zero_iff)

lemma resize_error_keeps_levels:
  "resize t newWidth newHeight = Inl (e, t') \<Longrightarrow> e = InvalidFormat \<and> levels t' = levels t"
  by (auto simp add: resize_def Let_def split: if_splits)

text \<open>
  C7. \<open>resize\<close> repeats the allocation of the constructor at the new size, and a zero
  dimension leaves no level. The code does the first for positive dimensions
  (\<open>resize_matches_constructor\<close>) but not the second: \<open>resize\<close> has no test of the
  dimensions, so \<open>resize(0, 0)\<close> on a 4x4 RGBA8 texture leaves one level, an empty buffer,
  where the constructor at \<open>(0, 0)\<close> leaves none.
\<close>

theorem resize_zero_keeps_level:
  "resize (Texture_init rgba8 4 4 False) 0 0
     = Inr \<lparr>pixelFormat = rgba8, width = 0, height = 0, mipMaps = False, levels = [[]]\<rparr>
   \<and> levels (Texture_init rgba8 0 0 False) = []"
  by (simp add: resize_def Texture_init_def zeroBuffer_def)

subsection \<open>setData\<close>

lemma setData_error_keeps_levels:
  "setData t buffer level = Inl (e, t') \<Longrightarrow> e \<noteq> OutOfRange \<Longrightarrow> levels t' = levels t"
  by (auto simp add: setData_def Let_def split: if_splits)




subsection \<open>generateMipMaps and the formats without a kernel\<close>

text \<open>
  C8, as the claim states it, fails: a 1x1 float32 texture has its base level, and
  \<open>generateMipMaps\<close> returns normally, since the loop that holds the \<open>switch\<close> is not entered.
\<close>

theorem generateMipMaps_float32_single_pixel:
  "levels (Texture_init float32 1 1 False) = [replicate 4 0]
   \<and> generateMipMaps exactOps (Texture_init float32 1 1 False)
       = Inr (Texture_init float32 1 1 False)"
  by (simp add: generateMipMaps_def Texture_init_def mipLoop.simps zeroBuffer_def)

text \<open>
  C8, amended. For every float32 texture that has a base level: when its width or height
  exceeds 1, \<open>generateMipMaps\<close> fails with \<open>InvalidFormat\<close>, with any arithmetic \<open>F\<close>, and
  the texture is left with level 1 pushed if it was missing; when neither exceeds 1,
  \<open>generateMipMaps\<close> returns and leaves the texture as it was.
\<close>

theorem generateMipMaps_float32_fails:
  assumes "pixelFormat t = float32" and "levels t \<noteq> []"
  shows "generateMipMaps F t =
           (if 1 < width t \<or> 1 < height t
            then Inl (InvalidFormat,
                      t\<lparr>levels :=
                          (if length (levels t) \<le> 1
                           then levels t @ [zeroBuffer (halveDim (width t) * halveDim (height t) * 4)]
                           else levels t)\<rparr>)
            else Inr t)"
  using assms
  by (cases "levels t")
     (auto simp add: generateMipMaps_def mipLoop.simps [of _ _ _ "width t" "height t"]
        downsampleLevel_def Let_def)

theorem generateMipMaps_float32_fails_witness:
  "pixelFormat (Texture_init float32 4 1 True) = float32
   \<and> levels (Texture_init float32 4 1 True) \<noteq> []
   \<and> generateMipMaps exactOps (Texture_init float32 4 1 True)
       = Inl (InvalidFormat, Texture_init float32 4 1 True)
   \<and> pixelFormat (Texture_init float32 1 1 True) = float32
   \<and> levels (Texture_init float32 1 1 True) \<noteq> []
   \<and> generateMipMaps exactOps (Texture_init float32 1 1 True)
       = Inr (Texture_init float32 1 1 True)"
proof -
  let ?t = "Texture_init float32 4 1 True" and ?s = "Texture_init float32 1 1 True"
  have fmt: "pixelFormat ?t = float32" "pixelFormat ?s = float32"
    by (simp_all add: Texture_init_def)
  have lv: "levels ?t \<noteq> []" "levels ?s \<noteq> []"
    by (simp_all add: Texture_init_def)
  have dims: "1 < width ?t \<or> 1 < height ?t" "\<not> (1 < width ?s \<or> 1 < height ?s)"
    by (simp_all add: Texture_init_def)
  have two: "\<not> length (levels ?t) \<le> 1"
    by (simp add: Texture_init_def mipChain.simps [of 4 1])
  from generateMipMaps_float32_fails [OF fmt(1) lv(1), of exactOps] two dims(1)
  have a: "generateMipMaps exactOps ?t = Inl (InvalidFormat, ?t)"
    by simp
  from generateMipMaps_float32_fails [OF fmt(2) lv(2), of exactOps] dims(2)
  have b: "generateMipMaps exactOps ?s = Inr ?s"
    by simp
  from fmt lv a b show ?thesis
    by (intro conjI)
qed

text \<open>
  C6. A failing operation leaves the levels as they were. \<open>resize\<close> and \<open>setData\<close> do
  (\<open>resize_error_keeps_levels\<close>, \<open>setData_error_keeps_levels\<close>). \<open>generateMipMaps\<close> does
  not: on a 2x2 float32 texture built without mip levels it pushes level 1 and then throws
  \<open>InvalidFormat\<close> from the \<open>switch\<close>, so the texture holds two levels after the failure
  and held one before.
\<close>

theorem generateMipMaps_float32_leaves_level:
  "generateMipMaps exactOps (Texture_init float32 2 2 False)
     = Inl (InvalidFormat,
            \<lparr>pixelFormat = float32, width = 2, height = 2, mipMaps = False,
             levels = [replicate 16 0, replicate 4 0]\<rparr>)
   \<and> levels (Texture_init float32 2 2 False) = [replicate 16 0]"
  by (simp add: generateMipMaps_def Texture_init_def mipLoop.simps [of _ _ _ 2 2] zeroBuffer_def
        downsampleLevel_def halveDim_def)

subsection \<open>The RGBA8 kernel\<close>










lemma alphaInside_append:
  "alphaInside src P (es @ fs) = (alphaInside src P es \<and> alphaInside src P fs)"
  by (simp add: alphaInside_def)







lemma storeRGBA_length: "length (storeRGBA F acc n) = 4"
  by (cases acc) (simp add: storeRGBA_def)




text \<open>
  Every level that \<open>generateMipMaps\<close> generates is the output of the kernel of the format on
  the level before it, as that level stands in the result.
\<close>

lemma mipLoop_levels:
  assumes "mipLoop F fmt ps w h w h L lv = Inr lv'" and "0 < L" and "L \<le> length lv"
  shows "take L lv' = take L lv
         \<and> (\<forall>j. 1 < (halveDim ^^ j) w \<or> 1 < (halveDim ^^ j) h \<longrightarrow>
                L + j < length lv'
                \<and> (\<exists>d0. downsampleLevel F fmt ((halveDim ^^ j) w) ((halveDim ^^ j) h)
                           (lv' ! (L + j - 1)) d0 = Inr (lv' ! (L + j))))"
  using assms
proof (induction "max (unat w) (unat h)" arbitrary: w h L lv rule: less_induct)
  case less
  show ?case
  proof (cases "1 < w \<or> 1 < h")
    case False
    with less.prems(1) have "lv' = lv"
      by (subst (asm) mipLoop.simps) simp
    moreover from False have "\<not> (1 < (halveDim ^^ j) w \<or> 1 < (halveDim ^^ j) h)" for j
      by (simp add: funpow_halveDim_small)
    ultimately show ?thesis by simp
  next
    case True
    let ?hw = "halveDim w" and ?hh = "halveDim h"
    define lv1 where "lv1 = (if length lv \<le> L then lv @ [zeroBuffer (?hw * ?hh * ps)] else lv)"
    have L1: "L < length lv1" "take L lv1 = take L lv"
      using less.prems(3) by (auto simp add: lv1_def)
    from less.prems(1) True less.prems(2) L1(1) obtain dst' where
      run: "downsampleLevel F fmt w h (lv1 ! (L - 1)) (lv1 ! L) = Inr dst'"
      and rest: "mipLoop F fmt ps ?hw ?hh ?hw ?hh (Suc L) (lv1[L := dst']) = Inr lv'"
      by (subst (asm) mipLoop.simps) (auto simp add: Let_def lv1_def split: sum.splits)
    let ?lv2 = "lv1[L := dst']"
    have "max (unat ?hw) (unat ?hh) < max (unat w) (unat h)"
      using True by (rule halving_decreases)
    from less.hyps [OF this rest] L1(1)
    have IH: "take (Suc L) lv' = take (Suc L) ?lv2
         \<and> (\<forall>j. 1 < (halveDim ^^ j) ?hw \<or> 1 < (halveDim ^^ j) ?hh \<longrightarrow>
                Suc L + j < length lv'
                \<and> (\<exists>d0. downsampleLevel F fmt ((halveDim ^^ j) ?hw) ((halveDim ^^ j) ?hh)
                           (lv' ! (Suc L + j - 1)) d0 = Inr (lv' ! (Suc L + j))))"
      by simp
    then have tk: "take (Suc L) lv' = take (Suc L) ?lv2"
      by (rule conjunct1)
    have lev: "Suc L + j < length lv'
                \<and> (\<exists>d0. downsampleLevel F fmt ((halveDim ^^ j) ?hw) ((halveDim ^^ j) ?hh)
                           (lv' ! (Suc L + j - 1)) d0 = Inr (lv' ! (Suc L + j)))"
      if "1 < (halveDim ^^ j) ?hw \<or> 1 < (halveDim ^^ j) ?hh" for j
      using IH that by blast
    from tk have "length (take (Suc L) lv') = length (take (Suc L) ?lv2)"
      by simp
    with L1(1) have len: "L < length lv'"
      by simp
    from tk have nth: "\<And>i. i \<le> L \<Longrightarrow> lv' ! i = ?lv2 ! i"
      by (metis le_imp_less_Suc nth_take)
    have atL: "lv' ! L = dst'"
      using nth [of L] L1(1) by simp
    have below: "lv' ! (L - 1) = lv1 ! (L - 1)"
      using nth [of "L - 1"] less.prems(2) by simp
    have tkL: "take L lv' = take L lv"
    proof -
      from tk have "take L (take (Suc L) lv') = take L (take (Suc L) ?lv2)" by simp
      then have "take L lv' = take L ?lv2" by (simp add: min_def)
      with L1(2) show ?thesis by simp
    qed
    have pix: "L + j < length lv'
               \<and> (\<exists>d0. downsampleLevel F fmt ((halveDim ^^ j) w) ((halveDim ^^ j) h)
                          (lv' ! (L + j - 1)) d0 = Inr (lv' ! (L + j)))"
      if big: "1 < (halveDim ^^ j) w \<or> 1 < (halveDim ^^ j) h" for j
    proof (cases j)
      case 0
      with run atL below len show ?thesis by auto
    next
      case (Suc j')
      with big have "1 < (halveDim ^^ j') ?hw \<or> 1 < (halveDim ^^ j') ?hh"
        by (simp add: funpow_swap1)
      from lev [OF this] Suc show ?thesis
        by (simp add: funpow_swap1)
    qed
    from tkL pix show ?thesis by blast
  qed
qed

lemma generateMipMaps_levels:
  assumes "generateMipMaps F t = Inr t'"
    and "1 < levelWidth t j \<or> 1 < levelHeight t j"
  shows "Suc j < length (levels t')
         \<and> (\<exists>d0. downsampleLevel F (pixelFormat t) (levelWidth t j) (levelHeight t j)
                    (levels t' ! j) d0 = Inr (levels t' ! Suc j))"
proof -
  from assms(1) obtain lv' where
    loop: "mipLoop F (pixelFormat t) (getPixelSize (pixelFormat t)) (width t) (height t)
             (width t) (height t) 1 (levels t) = Inr lv'"
    and t': "levels t' = lv'" and ne: "levels t \<noteq> []"
    by (auto simp add: generateMipMaps_def Let_def split: if_splits sum.splits)
  from ne have "1 \<le> length (levels t)"
    by (cases "levels t") simp_all
  from mipLoop_levels [OF loop _ this] assms(2) show ?thesis
    by (auto simp add: t' levelWidth_def levelHeight_def)
qed


subsection \<open>The number of levels\<close>

lemma mipChain_length:
  "1 \<le> max (unat w) (unat h) \<Longrightarrow>
     length (mipChain w h ps) = floorlog 2 (max (unat w) (unat h)) - 1"
proof (induction w h ps rule: mipChain.induct)
  case (1 w h ps)
  let ?m = "max (unat w) (unat h)"
  show ?case
  proof (cases "1 < w \<or> 1 < h")
    case True
    then have m2: "2 \<le> ?m"
      by (auto simp add: word_less_nat_alt)
    have m': "max (unat (halveDim w)) (unat (halveDim h)) = ?m div 2"
      using m2 by (auto simp add: halveDim_unat max_def)
    have pos: "1 \<le> ?m div 2"
      using m2 by simp
    have IH: "length (mipChain (halveDim w) (halveDim h) ps) = floorlog 2 (?m div 2) - 1"
      using "1.IH" [OF True] pos m' by simp
    have fl: "floorlog 2 ?m = floorlog 2 (?m div 2) + 1"
      using m2 by (subst compute_floorlog) simp
    have "1 \<le> floorlog 2 (?m div 2)"
      using pos by (subst compute_floorlog) simp
    with IH fl True show ?thesis
      by (subst mipChain.simps) simp
  next
    case False
    then have "?m \<le> 1"
      by (auto simp add: word_less_nat_alt not_less)
    from this "1.prems" have "?m = 1" by (rule le_antisym)
    with False show ?thesis
      by (subst mipChain.simps) (simp add: compute_floorlog)
  qed
qed

text \<open>
  A texture constructed with mip levels, a format of nonzero pixel size and positive
  dimensions has \<open>1 + floor (log2 (max width height))\<close> levels.
\<close>

lemma Texture_init_level_count:
  assumes "getPixelSize fmt \<noteq> 0" and "1 \<le> w" and "1 \<le> h"
  shows "length (levels (Texture_init fmt w h True))
           = 1 + nat \<lfloor>log 2 (real (max (unat w) (unat h)))\<rfloor>"
proof -
  from assms have pos: "0 < w" "0 < h" "0 < getPixelSize fmt"
    by (auto simp add: word_greater_zero_iff word_le_nat_alt)
  then have m: "1 \<le> max (unat w) (unat h)"
    by (simp add: word_less_nat_alt)
  then have "floorlog 2 (max (unat w) (unat h)) = nat \<lfloor>log 2 (real (max (unat w) (unat h)))\<rfloor> + 1"
    by (simp add: floorlog_def)
  with pos m show ?thesis
    by (simp add: Texture_init_def Let_def mipChain_length)
qed

lemma pixelLoop_first_None:
  "0 < n \<Longrightarrow> body p = None \<Longrightarrow> pixelLoop body n step p d dst = None"
  by (cases n) simp_all

lemma rowLoop_first_None:
  "0 < m \<Longrightarrow> 0 < w \<Longrightarrow> body s = None \<Longrightarrow> rowLoop body m w ystep xstep s d dst = None"
  by (cases m) (simp_all add: pixelLoop_first_None)

text \<open>
  C2, as the claim states it, fails where \<open>width * height * pixelSize\<close> overflows 32
  bits. The R8 texture of 65536 x 65536 is constructed with its 17 levels, but level 0 is
  allocated with \<open>65536 * 65536 * 1 = 0\<close> bytes, and the kernel that \<open>generateMipMaps\<close>
  runs on it reads \<open>pixel[0]\<close> of an empty buffer.
\<close>

theorem generateMipMaps_overflow:
  "length (levels (Texture_init r8 65536 65536 True)) = 17
   \<and> hd (levels (Texture_init r8 65536 65536 True)) = []
   \<and> generateMipMaps exactOps (Texture_init r8 65536 65536 True)
       = Inl (OutOfRange, Texture_init r8 65536 65536 True)"
proof -
  let ?t = "Texture_init r8 65536 65536 True"
  have lv: "levels ?t = [] # zeroBuffer (32768 * 32768 * 1) # mipChain 32768 32768 1"
    by (simp add: Texture_init_def zeroBuffer_def mipChain.simps [of 65536 65536] halveDim_def)
  have k: "imageR8Downsample2x2 exactOps 65536 65536 65536 [] dst = None" for dst
    by (simp add: imageR8Downsample2x2_def rowLoop_first_None quadR8_def rd_def)
  have loop: "mipLoop exactOps r8 1 65536 65536 65536 65536 (Suc 0) (levels ?t)
                = Inl (OutOfRange, levels ?t)"
    by (subst mipLoop.simps) (simp add: lv downsampleLevel_def k Let_def)
  have fields: "pixelFormat ?t = r8" "width ?t = 65536" "height ?t = 65536"
    by (simp_all add: Texture_init_def)
  have g: "generateMipMaps exactOps ?t = Inl (OutOfRange, ?t)"
    by (simp add: generateMipMaps_def fields loop) (simp add: lv)
  have "floorlog 2 65536 = 17"
    by (simp add: compute_floorlog)
  then have n: "length (levels ?t) = 17"
    by (simp add: Texture_init_def mipChain_length)
  from g n lv show ?thesis by simp
qed

text \<open>A run of the loops returns when every access it makes is inside the buffers.\<close>

lemma store_runs:
  "d + length out \<le> length dst \<Longrightarrow> \<exists>dst'. store dst d out = Some dst' \<and> length dst' = length dst"
  by (simp add: store_def)

lemma pixelLoop_runs:
  assumes "\<forall>i<n. \<exists>out. body (p + i * step) = Some out \<and> length out = k"
    and "d + n * k \<le> length dst"
  shows "\<exists>dst'. pixelLoop body n step p d dst = Some (d + n * k, dst')
               \<and> length dst' = length dst"
  using assms
proof (induction n arbitrary: p d dst)
  case 0
  then show ?case by simp
next
  case (Suc n)
  from Suc.prems(1) obtain out where b: "body p = Some out" and k: "length out = k"
    by fastforce
  from Suc.prems(2) k have "d + length out \<le> length dst" by simp
  from store_runs [OF this] obtain dst1 where st: "store dst d out = Some dst1"
    and l1: "length dst1 = length dst" by blast
  have bodies: "\<forall>i<n. \<exists>out. body (p + step + i * step) = Some out \<and> length out = k"
  proof (intro allI impI)
    fix i assume "i < n"
    then have "Suc i < Suc n" by simp
    with Suc.prems(1) have "\<exists>out. body (p + Suc i * step) = Some out \<and> length out = k"
      by blast
    then show "\<exists>out. body (p + step + i * step) = Some out \<and> length out = k"
      by (simp add: add.assoc)
  qed
  from Suc.prems(2) l1 have room: "d + k + n * k \<le> length dst1" by simp
  from Suc.IH [OF bodies room] obtain dst' where
    "pixelLoop body n step (p + step) (d + k) dst1 = Some (d + k + n * k, dst')"
    and "length dst' = length dst1" by blast
  with b st k l1 show ?case by (simp add: add.assoc)
qed

lemma rowLoop_runs:
  assumes "\<forall>y<m. \<forall>x<w. \<exists>out. body (s + y * ystep + x * xstep) = Some out \<and> length out = k"
    and "d + m * w * k \<le> length dst"
  shows "\<exists>dst'. rowLoop body m w ystep xstep s d dst = Some (d + m * w * k, dst')
               \<and> length dst' = length dst"
  using assms
proof (induction m arbitrary: s d dst)
  case 0
  then show ?case by simp
next
  case (Suc m)
  have row: "\<forall>x<w. \<exists>out. body (s + x * xstep) = Some out \<and> length out = k"
    using Suc.prems(1) by fastforce
  have "w * k \<le> Suc m * w * k" by simp
  with Suc.prems(2) have "d + w * k \<le> length dst" by linarith
  from pixelLoop_runs [OF row this] obtain dst1 where
    r1: "pixelLoop body w xstep s d dst = Some (d + w * k, dst1)"
    and l1: "length dst1 = length dst" by blast
  have bodies: "\<forall>y<m. \<forall>x<w. \<exists>out. body (s + ystep + y * ystep + x * xstep) = Some out
                  \<and> length out = k"
  proof (intro allI impI)
    fix y x assume "y < m" and x: "x < w"
    then have "Suc y < Suc m" by simp
    with Suc.prems(1) x
    have "\<exists>out. body (s + Suc y * ystep + x * xstep) = Some out \<and> length out = k"
      by blast
    then show "\<exists>out. body (s + ystep + y * ystep + x * xstep) = Some out \<and> length out = k"
      by (simp add: add.assoc)
  qed
  from Suc.prems(2) l1 have room: "d + w * k + m * w * k \<le> length dst1"
    by (simp add: add.assoc distrib_right)
  from Suc.IH [OF bodies room] obtain dst' where
    "rowLoop body m w ystep xstep (s + ystep) (d + w * k) dst1
       = Some (d + w * k + m * w * k, dst')"
    and "length dst' = length dst1" by blast
  with r1 l1 show ?case by (simp add: add.assoc distrib_right)
qed

lemma addSample_runs:
  assumes "P + unat e + 3 < length src" and "unat e + 3 < 2 ^ 32"
  shows "\<exists>acc'. addSample F src P e acc = Some acc'"
proof -
  have "unat (e + 3) = unat e + 3" "unat (e + 2) = unat e + 2" "unat (e + 1) = unat e + 1"
    using assms(2) unat_plus_small [of e 3] unat_plus_small [of e 2] unat_plus_small [of e 1]
    by simp_all
  with assms(1) show ?thesis
    by (cases acc) (simp add: addSample_def rd_def)
qed

lemma quadRGBA_runs:
  assumes "P + unat pitch + 7 < length src" and "unat pitch + 7 < 2 ^ 32"
  shows "\<exists>out. quadRGBA F src pitch P = Some out \<and> length out = 4"
proof -
  have p4: "unat (pitch + 4) = unat pitch + 4"
    using assms(2) unat_plus_small [of pitch 4] by simp
  obtain acc1 where a1: "addSample F src P 0 (rgbaZero F) = Some acc1"
    using addSample_runs [of P 0 src F "rgbaZero F"] assms by auto
  obtain acc2 where a2: "addSample F src P 4 acc1 = Some acc2"
    using addSample_runs [of P 4 src F acc1] assms by auto
  obtain acc3 where a3: "addSample F src P pitch acc2 = Some acc3"
    using addSample_runs [of P pitch src F acc2] assms by auto
  obtain acc4 where a4: "addSample F src P (pitch + 4) acc3 = Some acc4"
    using addSample_runs [of P "pitch + 4" src F acc3] assms p4 by auto
  from a1 a2 a3 a4 show ?thesis
    by (simp add: quadRGBA_def storeRGBA_length)
qed

lemma vpairRGBA_runs:
  assumes "P + unat pitch + 3 < length src" and "unat pitch + 3 < 2 ^ 32"
  shows "\<exists>out. vpairRGBA F src pitch P = Some out \<and> length out = 4"
proof -
  obtain acc1 where a1: "addSample F src P 0 (rgbaZero F) = Some acc1"
    using addSample_runs [of P 0 src F "rgbaZero F"] assms by auto
  obtain acc2 where a2: "addSample F src P pitch acc1 = Some acc2"
    using addSample_runs [of P pitch src F acc1] assms by auto
  from a1 a2 show ?thesis
    by (simp add: vpairRGBA_def storeRGBA_length)
qed

lemma hpairRGBA_runs:
  assumes "P + 7 < length src"
  shows "\<exists>out. hpairRGBA F src P = Some out \<and> length out = 4"
proof -
  obtain acc1 where a1: "addSample F src P 0 (rgbaZero F) = Some acc1"
    using addSample_runs [of P 0 src F "rgbaZero F"] assms by auto
  obtain acc2 where a2: "addSample F src P 4 acc1 = Some acc2"
    using addSample_runs [of P 4 src F acc1] assms by auto
  from a1 a2 show ?thesis
    by (simp add: hpairRGBA_def storeRGBA_length)
qed

lemma quadR8_runs:
  assumes "P + unat pitch + 1 < length src" and "unat pitch + 1 < 2 ^ 32"
  shows "\<exists>out. quadR8 F src pitch P = Some out \<and> length out = 1"
    and "\<exists>out. quadA8 src pitch P = Some out \<and> length out = 1"
proof -
  have "unat (pitch + 1) = unat pitch + 1"
    using assms(2) unat_plus_small [of pitch 1] by simp
  with assms(1) show "\<exists>out. quadR8 F src pitch P = Some out \<and> length out = 1"
    and "\<exists>out. quadA8 src pitch P = Some out \<and> length out = 1"
    by (simp_all add: quadR8_def quadA8_def rd_def)
qed

lemma vpairR8_runs:
  assumes "P + unat pitch < length src"
  shows "\<exists>out. vpairR8 F src pitch P = Some out \<and> length out = 1"
    and "\<exists>out. vpairA8 src pitch P = Some out \<and> length out = 1"
  using assms by (simp_all add: vpairR8_def vpairA8_def rd_def)

lemma hpairR8_runs:
  assumes "P + 1 < length src"
  shows "\<exists>out. hpairR8 F src P = Some out \<and> length out = 1"
    and "\<exists>out. hpairA8 src P = Some out \<and> length out = 1"
  using assms by (simp_all add: hpairR8_def hpairA8_def rd_def)

lemma row_geometry:
  assumes "x < W div 2"
  shows "x * (2 * k) + 2 * k \<le> (W::nat) * k"
proof -
  from assms have "2 * Suc x \<le> W" by simp
  then have "k * (2 * Suc x) \<le> k * W" by (rule mult_le_mono2)
  then show ?thesis by (simp add: algebra_simps)
qed

lemma quad_geometry:
  assumes "y < H div 2" and "x < W div 2"
  shows "y * (2 * (W * k)) + x * (2 * k) + W * k + 2 * k \<le> W * (H::nat) * k"
proof -
  have a: "x * (2 * k) + 2 * k \<le> W * k"
    using assms(2) by (rule row_geometry)
  have "y * (2 * (W * k)) + 2 * (W * k) \<le> H * (W * k)"
    using assms(1) by (rule row_geometry)
  moreover have "H * (W * k) = W * H * k"
    by (simp add: mult_ac)
  ultimately show ?thesis using a by linarith
qed

lemma shapes_run:
  fixes w h pitch :: u32 and k :: nat
  assumes Q: "\<And>P. P + unat pitch + (2 * k - 1) < length src \<Longrightarrow> unat pitch + (2 * k - 1) < 2 ^ 32
                \<Longrightarrow> \<exists>out. quad P = Some out \<and> length out = k"
    and V: "\<And>P. P + unat pitch + (k - 1) < length src \<Longrightarrow> unat pitch + (k - 1) < 2 ^ 32
                \<Longrightarrow> \<exists>out. vpair P = Some out \<and> length out = k"
    and R: "\<And>P. P + (2 * k - 1) < length src \<Longrightarrow> \<exists>out. hpair P = Some out \<and> length out = k"
    and k: "0 < k" and xstep: "xstep = 2 * k" and pitch: "pitch = w * of_nat k"
    and big: "1 < w \<or> 1 < h" and w1: "1 \<le> w" and h1: "1 \<le> h"
    and src: "unat w * unat h * k \<le> length src"
    and noov: "unat w * unat h * k < 2 ^ 32"
    and dst: "unat (halveDim w) * unat (halveDim h) * k \<le> length dst"
  shows "\<exists>dst'.
           (if 0 < drop_bit 1 w \<and> 0 < drop_bit 1 h
            then map_option snd
                   (rowLoop quad (unat (drop_bit 1 h)) (unat (drop_bit 1 w))
                      (unat (pitch * 2)) xstep 0 0 dst)
            else if 0 < drop_bit 1 h
            then map_option snd (pixelLoop vpair (unat (drop_bit 1 h)) (unat (pitch * 2)) 0 0 dst)
            else if 0 < drop_bit 1 w
            then map_option snd (pixelLoop hpair (unat (drop_bit 1 w)) xstep 0 0 dst)
            else Some dst) = Some dst'
           \<and> length dst' = length dst"
proof -
  define W H A N where "W = unat w" and "H = unat h" and "A = W * k" and "N = W * H * k"
  have srcN: "N \<le> length src" and N32: "N < 2 ^ 32"
    using src noov by (simp_all add: N_def W_def H_def)
  from w1 h1 have W1: "1 \<le> W" and H1: "1 \<le> H"
    by (simp_all add: word_le_nat_alt W_def H_def)
  have HA: "H * A = N"
    by (simp add: A_def N_def mult_ac)
  have "1 * A \<le> H * A"
    using H1 by (rule mult_le_mono1)
  with HA N32 have A32: "A < 2 ^ 32" by linarith
  have "1 * k \<le> W * k"
    using W1 by (rule mult_le_mono1)
  with A32 have k32: "k < 2 ^ 32" unfolding A_def by linarith
  have up: "unat pitch = A"
    using A32 k32 unfolding A_def W_def
    by (simp add: pitch unat_word_ariths unat_of_nat take_bit_eq_mod)
  have dW: "unat (drop_bit 1 w) = W div 2" and dH: "unat (drop_bit 1 h) = H div 2"
    unfolding W_def H_def by (rule unat_drop_bit_1)+
  consider (quad) "1 < w" "1 < h" | (col) "\<not> 1 < w" "1 < h" | (row) "1 < w" "\<not> 1 < h"
    using big by blast
  then show ?thesis
  proof cases
    case quad
    then have W2: "2 \<le> W" and H2: "2 \<le> H"
      by (simp_all add: word_less_nat_alt W_def H_def)
    have "2 * A \<le> H * A"
      using H2 by (rule mult_le_mono1)
    with HA N32 have y32: "2 * A < 2 ^ 32" by linarith
    have ystep: "unat (pitch * 2) = 2 * A"
      using y32 up by (simp add: unat_word_ariths mult.commute)
    have kA: "2 * k \<le> A"
      unfolding A_def using W2 by (rule mult_le_mono1)
    with y32 k have p32: "unat pitch + (2 * k - 1) < 2 ^ 32"
      unfolding up by linarith
    have bodies: "\<forall>y<unat (drop_bit 1 h). \<forall>x<unat (drop_bit 1 w).
        \<exists>out. quad (0 + y * unat (pitch * 2) + x * (2 * k)) = Some out \<and> length out = k"
    proof (intro allI impI)
      fix y x assume "y < unat (drop_bit 1 h)" and "x < unat (drop_bit 1 w)"
      then have "y < H div 2" and "x < W div 2"
        unfolding dW dH .
      from quad_geometry [OF this, of k]
      have "y * (2 * A) + x * (2 * k) + A + 2 * k \<le> N"
        by (simp only: A_def N_def)
      with srcN k
      have "0 + y * unat (pitch * 2) + x * (2 * k) + unat pitch + (2 * k - 1) < length src"
        unfolding ystep up by linarith
      from Q [OF this p32]
      show "\<exists>out. quad (0 + y * unat (pitch * 2) + x * (2 * k)) = Some out \<and> length out = k" .
    qed
    from dst quad
    have room: "0 + unat (drop_bit 1 h) * unat (drop_bit 1 w) * k \<le> length dst"
      by (simp add: halveDim_big mult.commute)
    from rowLoop_runs [OF bodies room] obtain dst' where
      "rowLoop quad (unat (drop_bit 1 h)) (unat (drop_bit 1 w)) (unat (pitch * 2)) (2 * k) 0 0 dst
         = Some (0 + unat (drop_bit 1 h) * unat (drop_bit 1 w) * k, dst')"
      and "length dst' = length dst" by blast
    with quad show ?thesis
      by (simp add: drop_bit_1_pos drop_bit_Suc0_pos xstep)
  next
    case col
    with w1 have w: "w = 1" by (simp add: word_le_1)
    then have Wk: "A = k" by (simp add: A_def W_def)
    from col have H2: "2 \<le> H"
      by (simp add: word_less_nat_alt H_def)
    have "2 * A \<le> H * A"
      using H2 by (rule mult_le_mono1)
    with HA N32 have y32: "2 * A < 2 ^ 32" by linarith
    have ystep: "unat (pitch * 2) = 2 * A"
      using y32 up by (simp add: unat_word_ariths mult.commute)
    from y32 k have p32: "unat pitch + (k - 1) < 2 ^ 32"
      unfolding up Wk by linarith
    have NH: "N = H * k"
      using HA Wk by simp
    have bodies: "\<forall>y<unat (drop_bit 1 h).
        \<exists>out. vpair (0 + y * unat (pitch * 2)) = Some out \<and> length out = k"
    proof (intro allI impI)
      fix y assume "y < unat (drop_bit 1 h)"
      then have "y < H div 2"
        unfolding dH .
      from row_geometry [OF this, of k] have "y * (2 * k) + 2 * k \<le> N"
        by (simp only: NH)
      with srcN k
      have "0 + y * unat (pitch * 2) + unat pitch + (k - 1) < length src"
        unfolding ystep up Wk by linarith
      from V [OF this p32]
      show "\<exists>out. vpair (0 + y * unat (pitch * 2)) = Some out \<and> length out = k" .
    qed
    from dst col have room: "0 + unat (drop_bit 1 h) * k \<le> length dst"
      by (simp add: halveDim_big halveDim_small)
    from pixelLoop_runs [OF bodies room] obtain dst' where
      "pixelLoop vpair (unat (drop_bit 1 h)) (unat (pitch * 2)) 0 0 dst
         = Some (0 + unat (drop_bit 1 h) * k, dst')"
      and "length dst' = length dst" by blast
    with col show ?thesis
      by (simp add: drop_bit_1_pos drop_bit_Suc0_pos xstep)
  next
    case row
    with h1 have h: "h = 1" by (simp add: word_le_1)
    then have NA: "N = W * k" by (simp add: N_def H_def)
    have bodies: "\<forall>x<unat (drop_bit 1 w).
        \<exists>out. hpair (0 + x * (2 * k)) = Some out \<and> length out = k"
    proof (intro allI impI)
      fix x assume "x < unat (drop_bit 1 w)"
      then have "x < W div 2"
        unfolding dW .
      from row_geometry [OF this, of k] have "x * (2 * k) + 2 * k \<le> N"
        by (simp only: NA)
      with srcN k have "0 + x * (2 * k) + (2 * k - 1) < length src"
        by linarith
      from R [OF this]
      show "\<exists>out. hpair (0 + x * (2 * k)) = Some out \<and> length out = k" .
    qed
    from dst row have room: "0 + unat (drop_bit 1 w) * k \<le> length dst"
      by (simp add: halveDim_big halveDim_small)
    from pixelLoop_runs [OF bodies room] obtain dst' where
      "pixelLoop hpair (unat (drop_bit 1 w)) (2 * k) 0 0 dst
         = Some (0 + unat (drop_bit 1 w) * k, dst')"
      and "length dst' = length dst" by blast
    with row show ?thesis
      by (simp add: drop_bit_1_pos drop_bit_Suc0_pos xstep)
  qed
qed

lemma downsampleLevel_runs:
  assumes fmt: "fmt = r8 \<or> fmt = a8 \<or> fmt = rgba8"
    and big: "1 < w \<or> 1 < h" and w1: "1 \<le> w" and h1: "1 \<le> h"
    and src: "unat w * unat h * unat (getPixelSize fmt) \<le> length src"
    and noov: "unat w * unat h * unat (getPixelSize fmt) < 2 ^ 32"
    and dst: "unat (halveDim w) * unat (halveDim h) * unat (getPixelSize fmt) \<le> length dst"
  shows "\<exists>dst'. downsampleLevel F fmt w h src dst = Inr dst' \<and> length dst' = length dst"
proof -
  have one: "(0::nat) < 1" "(2::nat) = 2 * 1" "w * 1 = w * of_nat 1"
    and four: "(0::nat) < 4" "(8::nat) = 2 * 4" "w * 4 = w * of_nat 4"
    by simp_all
  consider (r) "fmt = r8" | (a) "fmt = a8" | (rgba) "fmt = rgba8"
    using fmt by blast
  then show ?thesis
  proof cases
    case r
    have Q: "\<exists>out. quadR8 F src (w * 1) P = Some out \<and> length out = 1"
      if "P + unat (w * 1) + (2 * 1 - 1) < length src" "unat (w * 1) + (2 * 1 - 1) < 2 ^ 32" for P
      using that by (intro quadR8_runs) simp_all
    have V: "\<exists>out. vpairR8 F src (w * 1) P = Some out \<and> length out = 1"
      if "P + unat (w * 1) + (1 - 1) < length src" "unat (w * 1) + (1 - 1) < 2 ^ 32" for P
      using that by (intro vpairR8_runs) simp_all
    have R: "\<exists>out. hpairR8 F src P = Some out \<and> length out = 1"
      if "P + (2 * 1 - 1) < length src" for P
      using that by (intro hpairR8_runs) simp_all
    from src noov dst r have sz: "unat w * unat h * 1 \<le> length src"
      "unat w * unat h * 1 < 2 ^ 32" "unat (halveDim w) * unat (halveDim h) * 1 \<le> length dst"
      by simp_all
    from shapes_run [where k = 1 and pitch = "w * 1" and src = src
        and quad = "quadR8 F src (w * 1)" and vpair = "vpairR8 F src (w * 1)"
        and hpair = "hpairR8 F src", OF Q V R one big w1 h1 sz]
    have "\<exists>dst'. imageR8Downsample2x2 F w h (w * 1) src dst = Some dst'
            \<and> length dst' = length dst"
      unfolding imageR8Downsample2x2_def Let_def .
    with r show ?thesis
      by (auto simp add: downsampleLevel_def)
  next
    case a
    have Q: "\<exists>out. quadA8 src (w * 1) P = Some out \<and> length out = 1"
      if "P + unat (w * 1) + (2 * 1 - 1) < length src" "unat (w * 1) + (2 * 1 - 1) < 2 ^ 32" for P
      using that by (intro quadR8_runs) simp_all
    have V: "\<exists>out. vpairA8 src (w * 1) P = Some out \<and> length out = 1"
      if "P + unat (w * 1) + (1 - 1) < length src" "unat (w * 1) + (1 - 1) < 2 ^ 32" for P
      using that by (intro vpairR8_runs) simp_all
    have R: "\<exists>out. hpairA8 src P = Some out \<and> length out = 1"
      if "P + (2 * 1 - 1) < length src" for P
      using that by (intro hpairR8_runs) simp_all
    from src noov dst a have sz: "unat w * unat h * 1 \<le> length src"
      "unat w * unat h * 1 < 2 ^ 32" "unat (halveDim w) * unat (halveDim h) * 1 \<le> length dst"
      by simp_all
    from shapes_run [where k = 1 and pitch = "w * 1" and src = src
        and quad = "quadA8 src (w * 1)" and vpair = "vpairA8 src (w * 1)"
        and hpair = "hpairA8 src", OF Q V R one big w1 h1 sz]
    have "\<exists>dst'. imageA8Downsample2x2 w h (w * 1) src dst = Some dst'
            \<and> length dst' = length dst"
      unfolding imageA8Downsample2x2_def Let_def .
    with a show ?thesis
      by (auto simp add: downsampleLevel_def)
  next
    case rgba
    have Q: "\<exists>out. quadRGBA F src (w * 4) P = Some out \<and> length out = 4"
      if "P + unat (w * 4) + (2 * 4 - 1) < length src" "unat (w * 4) + (2 * 4 - 1) < 2 ^ 32" for P
      using that by (intro quadRGBA_runs) simp_all
    have V: "\<exists>out. vpairRGBA F src (w * 4) P = Some out \<and> length out = 4"
      if "P + unat (w * 4) + (4 - 1) < length src" "unat (w * 4) + (4 - 1) < 2 ^ 32" for P
      using that by (intro vpairRGBA_runs) simp_all
    have R: "\<exists>out. hpairRGBA F src P = Some out \<and> length out = 4"
      if "P + (2 * 4 - 1) < length src" for P
      using that by (intro hpairRGBA_runs) simp_all
    from src noov dst rgba have sz: "unat w * unat h * 4 \<le> length src"
      "unat w * unat h * 4 < 2 ^ 32" "unat (halveDim w) * unat (halveDim h) * 4 \<le> length dst"
      by simp_all
    from shapes_run [where k = 4 and pitch = "w * 4" and src = src
        and quad = "quadRGBA F src (w * 4)" and vpair = "vpairRGBA F src (w * 4)"
        and hpair = "hpairRGBA F src", OF Q V R four big w1 h1 sz]
    have "\<exists>dst'. imageRGBA8Downsample2x2 F w h (w * 4) src dst = Some dst'
            \<and> length dst' = length dst"
      unfolding imageRGBA8Downsample2x2_def Let_def .
    with rgba show ?thesis
      by (auto simp add: downsampleLevel_def)
  qed
qed

lemma mipChain_length_step:
  "length (mipChain w h ps)
     = (if 1 < w \<or> 1 < h then Suc (length (mipChain (halveDim w) (halveDim h) ps)) else 0)"
  by (subst mipChain.simps) simp

lemma mipLoop_runs:
  assumes fmt: "fmt = r8 \<or> fmt = a8 \<or> fmt = rgba8"
    and w1: "1 \<le> w" and h1: "1 \<le> h"
    and L: "0 < L" "L \<le> length lv"
    and src: "unat w * unat h * unat (getPixelSize fmt) \<le> length (lv ! (L - 1))"
    and noov: "unat w * unat h * unat (getPixelSize fmt) < 2 ^ 32"
    and held: "\<forall>j. L + j < length lv \<longrightarrow>
                 unat ((halveDim ^^ Suc j) w) * unat ((halveDim ^^ Suc j) h)
                   * unat (getPixelSize fmt) \<le> length (lv ! (L + j))"
  shows "\<exists>lv'. mipLoop F fmt (getPixelSize fmt) w h w h L lv = Inr lv'
              \<and> take L lv' = take L lv
              \<and> length lv' = max (length lv) (L + length (mipChain w h (getPixelSize fmt)))
              \<and> (\<forall>i<length lv. length (lv' ! i) = length (lv ! i))"
  using w1 h1 L src noov held
proof (induction "max (unat w) (unat h)" arbitrary: w h L lv rule: less_induct)
  case less
  let ?ps = "getPixelSize fmt"
  show ?case
  proof (cases "1 < w \<or> 1 < h")
    case False
    then have "mipLoop F fmt ?ps w h w h L lv = Inr lv"
      by (subst mipLoop.simps) simp
    moreover from False have "length (mipChain w h ?ps) = 0"
      by (subst mipChain_length_step) simp
    ultimately show ?thesis
      using less.prems(4) by (simp add: max_def)
  next
    case True
    let ?hw = "halveDim w" and ?hh = "halveDim h"
    from fmt have ps0: "?ps \<noteq> 0" by auto
    have "unat ?hw * unat ?hh \<le> unat w * unat h"
      using less.prems(1,2) by (intro mult_le_mono halveDim_le)
    then have "unat ?hw * unat ?hh * unat ?ps \<le> unat w * unat h * unat ?ps"
      by (rule mult_le_mono1)
    then have noov': "unat ?hw * unat ?hh * unat ?ps < 2 ^ 32"
      using less.prems(6) by (rule le_less_trans)
    define lv1 where "lv1 = (if length lv \<le> L then lv @ [zeroBuffer (?hw * ?hh * ?ps)] else lv)"
    have len1: "length lv1 = max (length lv) (Suc L)"
      using less.prems(4) by (auto simp add: lv1_def max_def)
    then have Llt: "L < length lv1"
      by simp
    have old: "lv1 ! i = lv ! i" if "i < length lv" for i
      using that by (simp add: lv1_def nth_append)
    have dst: "unat ?hw * unat ?hh * unat ?ps \<le> length (lv1 ! L)"
    proof (cases "length lv \<le> L")
      case True
      with less.prems(4) have "lv1 ! L = zeroBuffer (?hw * ?hh * ?ps)"
        by (simp add: lv1_def nth_append)
      then show ?thesis
        using unat_mult3 [OF noov' ps0] by (simp add: zeroBuffer_def)
    next
      case False
      then have "L + 0 < length lv" by simp
      with less.prems(7) have "unat ((halveDim ^^ Suc 0) w) * unat ((halveDim ^^ Suc 0) h)
                   * unat ?ps \<le> length (lv ! (L + 0))"
        by blast
      with False show ?thesis
        by (simp add: lv1_def)
    qed
    have "L - 1 < length lv"
      using less.prems(3,4) by simp
    then have "lv1 ! (L - 1) = lv ! (L - 1)"
      by (rule old)
    with less.prems(5) have src1: "unat w * unat h * unat ?ps \<le> length (lv1 ! (L - 1))"
      by simp
    from downsampleLevel_runs [OF fmt True less.prems(1,2) src1 less.prems(6) dst, of F]
    obtain dst' where run: "downsampleLevel F fmt w h (lv1 ! (L - 1)) (lv1 ! L) = Inr dst'"
      and ld: "length dst' = length (lv1 ! L)" by blast
    let ?lv2 = "lv1[L := dst']"
    have IH: "\<exists>lv'. mipLoop F fmt ?ps ?hw ?hh ?hw ?hh (Suc L) ?lv2 = Inr lv'
                \<and> take (Suc L) lv' = take (Suc L) ?lv2
                \<and> length lv' = max (length ?lv2) (Suc L + length (mipChain ?hw ?hh ?ps))
                \<and> (\<forall>i<length ?lv2. length (lv' ! i) = length (?lv2 ! i))"
    proof (rule less.hyps)
      show "max (unat ?hw) (unat ?hh) < max (unat w) (unat h)"
        using True by (rule halving_decreases)
      show "1 \<le> ?hw" "1 \<le> ?hh"
        by (rule halveDim_ge_1)+
      show "0 < Suc L" by simp
      show "Suc L \<le> length ?lv2" using Llt by simp
      show "unat ?hw * unat ?hh * unat ?ps \<le> length (?lv2 ! (Suc L - 1))"
        using Llt ld dst by simp
      show "unat ?hw * unat ?hh * unat ?ps < 2 ^ 32"
        by (rule noov')
      show "\<forall>j. Suc L + j < length ?lv2 \<longrightarrow>
                 unat ((halveDim ^^ Suc j) ?hw) * unat ((halveDim ^^ Suc j) ?hh)
                   * unat ?ps \<le> length (?lv2 ! (Suc L + j))"
      proof (intro allI impI)
        fix j
        assume "Suc L + j < length ?lv2"
        then have a: "Suc L + j < length lv1" by simp
        with len1 have b: "L + Suc j < length lv"
          by (simp add: max_def split: if_splits)
        with less.prems(7) have "unat ((halveDim ^^ Suc (Suc j)) w)
                   * unat ((halveDim ^^ Suc (Suc j)) h) * unat ?ps \<le> length (lv ! (L + Suc j))"
          by blast
        moreover have "?lv2 ! (Suc L + j) = lv ! (L + Suc j)"
          using old [OF b] by simp
        moreover have "(halveDim ^^ Suc (Suc j)) w = (halveDim ^^ Suc j) ?hw"
          "(halveDim ^^ Suc (Suc j)) h = (halveDim ^^ Suc j) ?hh"
          by (simp_all only: funpow_Suc_right o_apply)
        ultimately show "unat ((halveDim ^^ Suc j) ?hw) * unat ((halveDim ^^ Suc j) ?hh)
                   * unat ?ps \<le> length (?lv2 ! (Suc L + j))"
          by simp
      qed
    qed
    then obtain lv' where r: "mipLoop F fmt ?ps ?hw ?hh ?hw ?hh (Suc L) ?lv2 = Inr lv'"
      and tk: "take (Suc L) lv' = take (Suc L) ?lv2"
      and n: "length lv' = max (length ?lv2) (Suc L + length (mipChain ?hw ?hh ?ps))"
      and keep: "\<forall>i<length ?lv2. length (lv' ! i) = length (?lv2 ! i)"
      by blast
    from tk have "take L (take (Suc L) lv') = take L (take (Suc L) ?lv2)"
      by simp
    then have "take L lv' = take L lv1"
      by (simp add: min_def)
    moreover have "take L lv1 = take L lv"
      using less.prems(4) by (simp add: lv1_def)
    ultimately have tk': "take L lv' = take L lv" by simp
    have "length (mipChain w h ?ps) = Suc (length (mipChain ?hw ?hh ?ps))"
      using True by (subst mipChain_length_step) simp
    with n len1 have n': "length lv' = max (length lv) (L + length (mipChain w h ?ps))"
      by (simp add: max_def)
    have keep': "length (lv' ! i) = length (lv ! i)" if i: "i < length lv" for i
    proof -
      from i len1 have i1: "i < length ?lv2" by simp
      with keep have "length (lv' ! i) = length (?lv2 ! i)" by blast
      also have "\<dots> = length (lv1 ! i)"
        using ld i1 by (cases "i = L") simp_all
      also have "\<dots> = length (lv ! i)"
        using old [OF i] by simp
      finally show ?thesis .
    qed
    have "mipLoop F fmt ?ps w h w h L lv = Inr lv'"
      using True Llt less.prems(3) run r
      by (subst mipLoop.simps) (simp add: Let_def lv1_def)
    with tk' n' keep' show ?thesis by blast
  qed
qed

text \<open>
  The levels that the constructor allocates: level \<open>j\<close> has the bytes of the dimensions
  halved \<open>j\<close> times. A texture with its pyramid allocated holds the pixels of all its
  levels.
\<close>

lemma mipChain_nth:
  "j < length (mipChain w h ps) \<Longrightarrow>
     mipChain w h ps ! j = zeroBuffer ((halveDim ^^ Suc j) w * (halveDim ^^ Suc j) h * ps)"
proof (induction w h ps arbitrary: j rule: mipChain.induct)
  case (1 w h ps)
  show ?case
  proof (cases "1 < w \<or> 1 < h")
    case False
    with "1.prems" show ?thesis
      by (simp add: mipChain_length_step)
  next
    case True
    then have chain: "mipChain w h ps
        = zeroBuffer (halveDim w * halveDim h * ps) # mipChain (halveDim w) (halveDim h) ps"
      by (subst mipChain.simps) simp
    show ?thesis
    proof (cases j)
      case 0
      then show ?thesis by (simp add: chain)
    next
      case (Suc j')
      with "1.prems" chain have "j' < length (mipChain (halveDim w) (halveDim h) ps)"
        by simp
      from "1.IH" [OF True this] Suc show ?thesis
        by (simp add: chain funpow_swap1)
    qed
  qed
qed

lemma mipChain_length_iff:
  "(j < length (mipChain w h ps)) = (1 < (halveDim ^^ j) w \<or> 1 < (halveDim ^^ j) h)"
proof (induction w h ps arbitrary: j rule: mipChain.induct)
  case (1 w h ps)
  show ?case
  proof (cases "1 < w \<or> 1 < h")
    case False
    then have "\<not> (1 < (halveDim ^^ j) w \<or> 1 < (halveDim ^^ j) h)"
      by (simp add: funpow_halveDim_small)
    with False show ?thesis
      by (simp add: mipChain_length_step)
  next
    case True
    show ?thesis
    proof (cases j)
      case 0
      with True show ?thesis by (simp add: mipChain_length_step)
    next
      case (Suc j')
      from "1.IH" [OF True, of j'] True Suc show ?thesis
        by (simp add: mipChain_length_step funpow_swap1)
    qed
  qed
qed

lemma funpow_halveDim_ge_1: "1 \<le> w \<Longrightarrow> 1 \<le> (halveDim ^^ j) w"
  by (cases j) (simp_all add: halveDim_ge_1)

lemma funpow_halveDim_le: "1 \<le> w \<Longrightarrow> unat ((halveDim ^^ j) w) \<le> unat w"
proof (induction j)
  case 0
  then show ?case by simp
next
  case (Suc j)
  from Suc.prems have "1 \<le> (halveDim ^^ j) w"
    by (rule funpow_halveDim_ge_1)
  then have "unat (halveDim ((halveDim ^^ j) w)) \<le> unat ((halveDim ^^ j) w)"
    by (rule halveDim_le)
  with Suc show ?case by simp
qed

lemma levelBytes_le:
  assumes "1 \<le> width t" and "1 \<le> height t"
  shows "levelBytes t j \<le> levelBytes t 0"
proof -
  have "unat (levelWidth t j) * unat (levelHeight t j) \<le> unat (width t) * unat (height t)"
    unfolding levelWidth_def levelHeight_def
    using assms by (intro mult_le_mono funpow_halveDim_le)
  then show ?thesis
    by (simp add: levelBytes_def levelWidth_def levelHeight_def)
qed

lemma Texture_init_nth:
  assumes ps: "getPixelSize fmt \<noteq> 0" and w1: "1 \<le> w" and h1: "1 \<le> h"
    and j: "j < length (levels (Texture_init fmt w h True))"
  shows "levels (Texture_init fmt w h True) ! j
           = zeroBuffer ((halveDim ^^ j) w * (halveDim ^^ j) h * getPixelSize fmt)"
proof -
  from ps w1 h1 have pos: "0 < w" "0 < h" "0 < getPixelSize fmt"
    by (auto simp add: word_greater_zero_iff word_le_nat_alt)
  then have c: "levels (Texture_init fmt w h True)
      = zeroBuffer (w * h * getPixelSize fmt) # mipChain w h (getPixelSize fmt)"
    by (simp add: Texture_init_def Let_def)
  show ?thesis
  proof (cases j)
    case 0
    then show ?thesis by (simp add: c)
  next
    case (Suc j')
    with j c have "j' < length (mipChain w h (getPixelSize fmt))" by simp
    from mipChain_nth [OF this] Suc show ?thesis
      by (simp add: c)
  qed
qed

lemma Texture_init_level_bytes:
  assumes ps: "getPixelSize (pixelFormat t) \<noteq> 0" and w1: "1 \<le> width t" and h1: "1 \<le> height t"
    and noov: "levelBytes t 0 < 2 ^ 32"
    and j: "j < length (levels (Texture_init (pixelFormat t) (width t) (height t) True))"
  shows "length (levels (Texture_init (pixelFormat t) (width t) (height t) True) ! j)
           = levelBytes t j"
proof -
  have "levelBytes t j \<le> levelBytes t 0"
    using w1 h1 by (rule levelBytes_le)
  then have "levelBytes t j < 2 ^ 32"
    using noov by (rule le_less_trans)
  then have "unat (levelWidth t j * levelHeight t j * getPixelSize (pixelFormat t))
               = levelBytes t j"
    unfolding levelBytes_def using ps by (rule unat_mult3)
  with Texture_init_nth [OF ps w1 h1 j] show ?thesis
    by (simp add: zeroBuffer_def levelWidth_def levelHeight_def)
qed

lemma Texture_init_allocated: "pyramidAllocated (Texture_init fmt w h True)"
  by (simp add: pyramidAllocated_def Texture_init_def Let_def list_all2_refl)

lemma pyramidAllocated_holds:
  assumes alloc: "pyramidAllocated t"
    and ps: "getPixelSize (pixelFormat t) \<noteq> 0" and w1: "1 \<le> width t" and h1: "1 \<le> height t"
    and noov: "levelBytes t 0 < 2 ^ 32"
  shows "levelsHold t"
proof -
  let ?c = "levels (Texture_init (pixelFormat t) (width t) (height t) True)"
  from alloc have all: "list_all2 (\<lambda>b c. length c \<le> length b) (levels t) ?c"
    by (simp add: pyramidAllocated_def)
  then have len: "length (levels t) = length ?c"
    by (rule list_all2_lengthD)
  from ps w1 h1 have "?c \<noteq> []"
    by (auto simp add: Texture_init_def Let_def word_greater_zero_iff word_le_nat_alt)
  with len have ne: "levels t \<noteq> []" by auto
  have "levelBytes t j \<le> length (levels t ! j)" if j: "j < length (levels t)" for j
  proof -
    from j len have jc: "j < length ?c" by simp
    from all j have "length (?c ! j) \<le> length (levels t ! j)"
      by (simp add: list_all2_conv_all_nth)
    with Texture_init_level_bytes [OF ps w1 h1 noov jc] show ?thesis by simp
  qed
  with ne show ?thesis
    by (simp add: levelsHold_def list_all_iff)
qed

text \<open>
  A constructed texture whose size does not overflow is in that state, with or without mip
  levels.
\<close>

lemma Texture_init_holds:
  assumes ps: "getPixelSize fmt \<noteq> 0" and w1: "1 \<le> w" and h1: "1 \<le> h"
    and noov: "unat w * unat h * unat (getPixelSize fmt) < 2 ^ 32"
  shows "levelsHold (Texture_init fmt w h b)"
proof (cases b)
  case True
  let ?t = "Texture_init fmt w h True"
  have f: "pixelFormat ?t = fmt" "width ?t = w" "height ?t = h"
    by (simp_all add: Texture_init_def Let_def)
  have "pyramidAllocated ?t"
    by (rule Texture_init_allocated)
  moreover have "getPixelSize (pixelFormat ?t) \<noteq> 0" "1 \<le> width ?t" "1 \<le> height ?t"
    using ps w1 h1 by (simp_all add: f)
  moreover have "levelBytes ?t 0 < 2 ^ 32"
    using noov by (simp add: levelBytes_def levelWidth_def levelHeight_def f)
  ultimately have "levelsHold ?t"
    by (rule pyramidAllocated_holds)
  with True show ?thesis by simp
next
  case False
  from ps w1 h1 have pos: "0 < w" "0 < h" "0 < getPixelSize fmt"
    by (auto simp add: word_greater_zero_iff word_le_nat_alt)
  with False show ?thesis
    using unat_mult3 [OF noov ps]
    by (simp add: levelsHold_def levelBytes_def levelWidth_def levelHeight_def
          Texture_init_def Let_def zeroBuffer_def)
qed

text \<open>
  On a texture in that state, of a format that has a kernel, \<open>generateMipMaps\<close> returns:
  it pushes the levels that are missing and keeps the length of those that are there.
\<close>

lemma generateMipMaps_runs:
  assumes fmt: "pixelFormat t = r8 \<or> pixelFormat t = a8 \<or> pixelFormat t = rgba8"
    and w1: "1 \<le> width t" and h1: "1 \<le> height t"
    and noov: "levelBytes t 0 < 2 ^ 32"
    and hold: "levelsHold t"
  shows "\<exists>lv'. generateMipMaps F t = Inr (t\<lparr>levels := lv'\<rparr>)
           \<and> take 1 lv' = take 1 (levels t)
           \<and> length lv' = max (length (levels t))
               (1 + length (mipChain (width t) (height t) (getPixelSize (pixelFormat t))))
           \<and> (\<forall>i<length (levels t). length (lv' ! i) = length (levels t ! i))"
proof -
  let ?fmt = "pixelFormat t" and ?w = "width t" and ?h = "height t"
  let ?ps = "getPixelSize ?fmt"
  from fmt have ps0: "?ps \<noteq> 0" by auto
  from hold have ne: "levels t \<noteq> []"
    and each: "\<And>j. j < length (levels t) \<Longrightarrow> levelBytes t j \<le> length (levels t ! j)"
    by (simp_all add: levelsHold_def list_all_iff)
  from ne have L: "0 < (1::nat)" "1 \<le> length (levels t)"
    by (cases "levels t"; simp)+
  have src: "unat ?w * unat ?h * unat ?ps \<le> length (levels t ! (1 - 1))"
    using each [of 0] ne by (simp add: levelBytes_def levelWidth_def levelHeight_def)
  have noov': "unat ?w * unat ?h * unat ?ps < 2 ^ 32"
    using noov by (simp add: levelBytes_def levelWidth_def levelHeight_def)
  have held: "\<forall>j. 1 + j < length (levels t) \<longrightarrow>
                 unat ((halveDim ^^ Suc j) ?w) * unat ((halveDim ^^ Suc j) ?h) * unat ?ps
                   \<le> length (levels t ! (1 + j))"
  proof (intro allI impI)
    fix j
    assume "1 + j < length (levels t)"
    then have "Suc j < length (levels t)" by simp
    from each [OF this] show "unat ((halveDim ^^ Suc j) ?w) * unat ((halveDim ^^ Suc j) ?h)
        * unat ?ps \<le> length (levels t ! (1 + j))"
      by (simp add: levelBytes_def levelWidth_def levelHeight_def)
  qed
  from mipLoop_runs [OF fmt w1 h1 L src noov' held, of F]
  obtain lv' where r: "mipLoop F ?fmt ?ps ?w ?h ?w ?h 1 (levels t) = Inr lv'"
    and rest: "take 1 lv' = take 1 (levels t)"
      "length lv' = max (length (levels t)) (1 + length (mipChain ?w ?h ?ps))"
      "\<forall>i<length (levels t). length (lv' ! i) = length (levels t ! i)"
    by blast
  have "generateMipMaps F t = Inr (t\<lparr>levels := lv'\<rparr>)"
    using ps0 ne r by (simp add: generateMipMaps_def)
  with rest show ?thesis by blast
qed

subsection \<open>The pixels of the generated levels\<close>



subsection \<open>The levels after generateMipMaps\<close>

text \<open>
  \<open>setData\<close> on a level of a texture with its pyramid allocated keeps it so.
\<close>

lemma mipChain_sizes:
  "1 \<le> w \<Longrightarrow> 1 \<le> h \<Longrightarrow>
     \<forall>b \<in> set (mipChain w h ps). length b \<le> unat w * unat h * unat ps"
proof (induction w h ps rule: mipChain.induct)
  case (1 w h ps)
  let ?hw = "halveDim w" and ?hh = "halveDim h"
  show ?case
  proof (cases "1 < w \<or> 1 < h")
    case False
    then show ?thesis by (subst mipChain.simps) simp
  next
    case True
    have "unat ?hw * unat ?hh \<le> unat w * unat h"
      using "1.prems" by (intro mult_le_mono halveDim_le)
    then have le: "unat ?hw * unat ?hh * unat ps \<le> unat w * unat h * unat ps"
      by (rule mult_le_mono1)
    have "length (zeroBuffer (?hw * ?hh * ps)) \<le> unat ?hw * unat ?hh * unat ps"
      using unat_mult3_le [of ?hw ?hh ps] by (simp add: zeroBuffer_def)
    then have hd: "length (zeroBuffer (?hw * ?hh * ps)) \<le> unat w * unat h * unat ps"
      using le by (rule le_trans)
    have "\<forall>b \<in> set (mipChain ?hw ?hh ps). length b \<le> unat ?hw * unat ?hh * unat ps"
      using True by (intro "1.IH" halveDim_ge_1)
    with le have tl: "\<forall>b \<in> set (mipChain ?hw ?hh ps). length b \<le> unat w * unat h * unat ps"
      by (meson le_trans)
    from True hd tl show ?thesis
      by (subst mipChain.simps) simp
  qed
qed

lemma setData_allocated:
  assumes alloc: "pyramidAllocated t" and lvl: "unat level < length (levels t)"
    and w1: "1 \<le> width t" and h1: "1 \<le> height t"
    and noov: "unat (width t) * unat (height t) * unat (getPixelSize (pixelFormat t)) < 2 ^ 32"
    and ok: "setData t buffer level = Inr t'"
  shows "pyramidAllocated t' \<and> length (levels t') = length (levels t)
         \<and> pixelFormat t' = pixelFormat t \<and> width t' = width t \<and> height t' = height t"
proof -
  let ?ps = "getPixelSize (pixelFormat t)"
  let ?c = "levels (Texture_init (pixelFormat t) (width t) (height t) True)"
  from ok lvl have t': "t' = t\<lparr>levels := (levels t)[unat level := buffer]\<rparr>"
    and sz: "length buffer = unat (width t * height t * ?ps)"
    and ps: "?ps \<noteq> 0"
    by (auto simp add: setData_def Let_def split: if_splits)
  from alloc have all: "list_all2 (\<lambda>b c. length c \<le> length b) (levels t) ?c"
    by (simp add: pyramidAllocated_def)
  have big: "length buffer = unat (width t) * unat (height t) * unat ?ps"
    using sz unat_mult3 [OF noov ps] by simp
  have "\<forall>b \<in> set ?c. length b \<le> length buffer"
    using mipChain_sizes [OF w1 h1, of ?ps] unat_mult3_le [of "width t" "height t" ?ps]
    by (auto simp add: Texture_init_def Let_def big zeroBuffer_def)
  moreover from all lvl have "unat level < length ?c"
    by (simp add: list_all2_lengthD)
  ultimately have "length (?c ! unat level) \<le> length buffer"
    by simp
  with all have "list_all2 (\<lambda>b c. length c \<le> length b) ((levels t)[unat level := buffer]) ?c"
    unfolding list_all2_conv_all_nth
    by (metis length_list_update nth_list_update_eq nth_list_update_neq)
  then show ?thesis
    by (simp add: t' pyramidAllocated_def)
qed

text \<open>
  C2, amended. For every format of nonzero pixel size and all width, height of at least 1,
  a texture constructed with mip levels has \<open>1 + floor (log2 (max width height))\<close> levels.
  For the formats r8, a8 and rgba8, when moreover \<open>width * height * pixelSize\<close> is below
  \<open>2^32\<close>, \<open>generateMipMaps\<close> on a texture with its pyramid allocated returns, with any
  arithmetic \<open>F\<close>, and leaves that many levels, each produced by repeated halving: level
  \<open>j + 1\<close> is the output of the kernel of the format on level \<open>j\<close> at the dimensions of
  the texture halved \<open>j\<close> times, one of which exceeds 1; level \<open>j\<close> holds the bytes of
  the dimensions halved \<open>j\<close> times, and exactly those when it had the length that the
  constructor gives it; at the last level both dimensions are 1. The byte lengths of the
  levels and the base level are as they were.
\<close>

theorem generateMipMaps_level_count:
  "(getPixelSize fmt \<noteq> 0 \<and> 1 \<le> w \<and> 1 \<le> h \<longrightarrow>
      length (levels (Texture_init fmt w h True))
        = 1 + nat \<lfloor>log 2 (real (max (unat w) (unat h)))\<rfloor>)
   \<and> ((pixelFormat t = r8 \<or> pixelFormat t = a8 \<or> pixelFormat t = rgba8)
        \<and> 1 \<le> width t \<and> 1 \<le> height t
        \<and> unat (width t) * unat (height t) * unat (getPixelSize (pixelFormat t)) < 2 ^ 32
        \<and> pyramidAllocated t \<longrightarrow>
      (\<exists>t'. generateMipMaps F t = Inr t'
            \<and> length (levels t') = 1 + nat \<lfloor>log 2 (real (max (unat (width t)) (unat (height t))))\<rfloor>
            \<and> map length (levels t') = map length (levels t)
            \<and> hd (levels t') = hd (levels t)
            \<and> (\<forall>j. Suc j < length (levels t') \<longrightarrow>
                  (1 < levelWidth t j \<or> 1 < levelHeight t j)
                  \<and> (\<exists>d0. downsampleLevel F (pixelFormat t) (levelWidth t j) (levelHeight t j)
                             (levels t' ! j) d0 = Inr (levels t' ! Suc j)))
            \<and> (\<forall>j. j < length (levels t') \<longrightarrow>
                  levelBytes t j \<le> length (levels t' ! j)
                  \<and> (length (levels t ! j)
                       = length (levels (Texture_init (pixelFormat t) (width t) (height t) True) ! j)
                     \<longrightarrow> length (levels t' ! j) = levelBytes t j))
            \<and> levelWidth t (length (levels t') - 1) = 1
            \<and> levelHeight t (length (levels t') - 1) = 1))"
proof (intro conjI impI)
  assume "getPixelSize fmt \<noteq> 0 \<and> 1 \<le> w \<and> 1 \<le> h"
  then show "length (levels (Texture_init fmt w h True))
               = 1 + nat \<lfloor>log 2 (real (max (unat w) (unat h)))\<rfloor>"
    by (simp add: Texture_init_level_count)
next
  let ?fmt = "pixelFormat t" and ?w = "width t" and ?h = "height t"
  let ?ps = "getPixelSize ?fmt"
  let ?c = "levels (Texture_init ?fmt ?w ?h True)"
  let ?n = "1 + nat \<lfloor>log 2 (real (max (unat ?w) (unat ?h)))\<rfloor>"
  assume a: "(?fmt = r8 \<or> ?fmt = a8 \<or> ?fmt = rgba8) \<and> 1 \<le> ?w \<and> 1 \<le> ?h
             \<and> unat ?w * unat ?h * unat ?ps < 2 ^ 32 \<and> pyramidAllocated t"
  then have fmt: "?fmt = r8 \<or> ?fmt = a8 \<or> ?fmt = rgba8" and w1: "1 \<le> ?w" and h1: "1 \<le> ?h"
    and noov: "levelBytes t 0 < 2 ^ 32" and alloc: "pyramidAllocated t"
    by (simp_all add: levelBytes_def levelWidth_def levelHeight_def)
  from fmt have ps0: "?ps \<noteq> 0" by auto
  from w1 h1 ps0 have pos: "0 < ?w" "0 < ?h" "0 < ?ps"
    by (auto simp add: word_greater_zero_iff word_le_nat_alt)
  then have c: "?c = zeroBuffer (?w * ?h * ?ps) # mipChain ?w ?h ?ps"
    by (simp add: Texture_init_def Let_def)
  from alloc have lenc: "length (levels t) = length ?c"
    by (simp add: pyramidAllocated_def list_all2_lengthD)
  then have lent: "length (levels t) = 1 + length (mipChain ?w ?h ?ps)"
    by (simp add: c)
  have hold: "levelsHold t"
    using alloc ps0 w1 h1 noov by (rule pyramidAllocated_holds)
  then have each: "\<And>j. j < length (levels t) \<Longrightarrow> levelBytes t j \<le> length (levels t ! j)"
    by (simp add: levelsHold_def list_all_iff)
  from generateMipMaps_runs [OF fmt w1 h1 noov hold, of F] lent
  obtain lv' where run: "generateMipMaps F t = Inr (t\<lparr>levels := lv'\<rparr>)"
    and tk: "take 1 lv' = take 1 (levels t)"
    and len: "length lv' = length (levels t)"
    and keep: "\<And>i. i < length (levels t) \<Longrightarrow> length (lv' ! i) = length (levels t ! i)"
    by auto
  let ?t' = "t\<lparr>levels := lv'\<rparr>"
  have n: "length (levels ?t') = ?n"
    using len lenc Texture_init_level_count [OF ps0 w1 h1] by simp
  have m: "map length (levels ?t') = map length (levels t)"
    using len keep by (auto intro: nth_equalityI)
  from tk len lent have h: "hd (levels ?t') = hd (levels t)"
    by (cases lv'; cases "levels t") simp_all
  have made: "(1 < levelWidth t j \<or> 1 < levelHeight t j)
              \<and> (\<exists>d0. downsampleLevel F ?fmt (levelWidth t j) (levelHeight t j)
                         (levels ?t' ! j) d0 = Inr (levels ?t' ! Suc j))"
    if "Suc j < length (levels ?t')" for j
  proof -
    from that len lent have "j < length (mipChain ?w ?h ?ps)"
      by simp
    then have big: "1 < levelWidth t j \<or> 1 < levelHeight t j"
      by (simp add: mipChain_length_iff levelWidth_def levelHeight_def)
    from generateMipMaps_levels [OF run big] big show ?thesis
      by blast
  qed
  have sizes: "levelBytes t j \<le> length (levels ?t' ! j)
               \<and> (length (levels t ! j) = length (?c ! j)
                  \<longrightarrow> length (levels ?t' ! j) = levelBytes t j)"
    if "j < length (levels ?t')" for j
  proof -
    from that len have j: "j < length (levels t)" by simp
    then have jc: "j < length ?c" using lenc by simp
    have "length (levels ?t' ! j) = length (levels t ! j)"
      using keep [OF j] by simp
    with each [OF j] Texture_init_level_bytes [OF ps0 w1 h1 noov jc] show ?thesis
      by simp
  qed
  have "\<not> length (mipChain ?w ?h ?ps) < length (mipChain ?w ?h ?ps)"
    by simp
  then have small: "\<not> 1 < levelWidth t (length (mipChain ?w ?h ?ps))"
    "\<not> 1 < levelHeight t (length (mipChain ?w ?h ?ps))"
    unfolding mipChain_length_iff by (simp_all add: levelWidth_def levelHeight_def)
  have last: "length (levels ?t') - 1 = length (mipChain ?w ?h ?ps)"
    using len lent by simp
  have "1 \<le> levelWidth t (length (mipChain ?w ?h ?ps))"
    "1 \<le> levelHeight t (length (mipChain ?w ?h ?ps))"
    unfolding levelWidth_def levelHeight_def
    using w1 h1 by (simp_all add: funpow_halveDim_ge_1)
  with small have ends: "levelWidth t (length (levels ?t') - 1) = 1"
    "levelHeight t (length (levels ?t') - 1) = 1"
    unfolding last by (simp_all add: word_le_1)
  from run n m h made sizes ends
  show "\<exists>t'. generateMipMaps F t = Inr t'
            \<and> length (levels t') = ?n
            \<and> map length (levels t') = map length (levels t)
            \<and> hd (levels t') = hd (levels t)
            \<and> (\<forall>j. Suc j < length (levels t') \<longrightarrow>
                  (1 < levelWidth t j \<or> 1 < levelHeight t j)
                  \<and> (\<exists>d0. downsampleLevel F ?fmt (levelWidth t j) (levelHeight t j)
                             (levels t' ! j) d0 = Inr (levels t' ! Suc j)))
            \<and> (\<forall>j. j < length (levels t') \<longrightarrow>
                  levelBytes t j \<le> length (levels t' ! j)
                  \<and> (length (levels t ! j) = length (?c ! j)
                     \<longrightarrow> length (levels t' ! j) = levelBytes t j))
            \<and> levelWidth t (length (levels t') - 1) = 1
            \<and> levelHeight t (length (levels t') - 1) = 1"
    by blast
qed

theorem generateMipMaps_level_count_witness:
  "getPixelSize float32 \<noteq> 0 \<and> (1 :: u32) \<le> 5 \<and> (1 :: u32) \<le> 3
   \<and> length (levels (Texture_init float32 5 3 True))
       = 1 + nat \<lfloor>log 2 (real (max (unat (5 :: u32)) (unat (3 :: u32))))\<rfloor>
   \<and> pixelFormat \<lparr>pixelFormat = rgba8, width = 2, height = 2, mipMaps = True,
         levels = [[10, 20, 30, 255,  1, 2, 3, 0,  50, 60, 70, 1,  9, 9, 9, 0], [0, 0, 0, 0]]\<rparr>
       = rgba8
   \<and> unat (2 :: u32) * unat (2 :: u32) * unat (getPixelSize rgba8) < 2 ^ 32
   \<and> pyramidAllocated \<lparr>pixelFormat = rgba8, width = 2, height = 2, mipMaps = True,
         levels = [[10, 20, 30, 255,  1, 2, 3, 0,  50, 60, 70, 1,  9, 9, 9, 0], [0, 0, 0, 0]]\<rparr>
   \<and> (\<exists>t'. generateMipMaps exactOps
              \<lparr>pixelFormat = rgba8, width = 2, height = 2, mipMaps = True,
                levels = [[10, 20, 30, 255,  1, 2, 3, 0,  50, 60, 70, 1,  9, 9, 9, 0],
                          [0, 0, 0, 0]]\<rparr> = Inr t'
            \<and> length (levels t') = 1 + nat \<lfloor>log 2 (real (max (unat (2 :: u32)) (unat (2 :: u32))))\<rfloor>
            \<and> map length (levels t')
                = map length [[10, 20, 30, 255,  1, 2, 3, 0,  50, 60, 70, 1,  9, 9, 9, 0 :: u8], [0, 0, 0, 0]]
            \<and> hd (levels t') = [10, 20, 30, 255,  1, 2, 3, 0,  50, 60, 70, 1,  9, 9, 9, 0]
            \<and> levelWidth \<lparr>pixelFormat = rgba8, width = 2, height = 2, mipMaps = True,
                levels = [[10, 20, 30, 255,  1, 2, 3, 0,  50, 60, 70, 1,  9, 9, 9, 0],
                          [0, 0, 0, 0]]\<rparr> (length (levels t') - 1) = 1
            \<and> levelHeight \<lparr>pixelFormat = rgba8, width = 2, height = 2, mipMaps = True,
                levels = [[10, 20, 30, 255,  1, 2, 3, 0,  50, 60, 70, 1,  9, 9, 9, 0],
                          [0, 0, 0, 0]]\<rparr> (length (levels t') - 1) = 1)"
proof -
  let ?t = "\<lparr>pixelFormat = rgba8, width = 2, height = 2, mipMaps = True,
         levels = [[10, 20, 30, 255,  1, 2, 3, 0,  50, 60, 70, 1,  9, 9, 9, 0], [0, 0, 0, 0]]\<rparr>"
  have a: "getPixelSize float32 \<noteq> 0 \<and> (1 :: u32) \<le> 5 \<and> (1 :: u32) \<le> 3"
    by simp
  have alloc: "pyramidAllocated ?t"
    by (simp add: pyramidAllocated_def Texture_init_def zeroBuffer_def halveDim_def
          mipChain.simps [of 2 2] mipChain.simps [of 1 1])
  have b: "(pixelFormat ?t = r8 \<or> pixelFormat ?t = a8 \<or> pixelFormat ?t = rgba8)
        \<and> 1 \<le> width ?t \<and> 1 \<le> height ?t
        \<and> unat (width ?t) * unat (height ?t) * unat (getPixelSize (pixelFormat ?t)) < 2 ^ 32
        \<and> pyramidAllocated ?t"
    using alloc by simp
  note inst = generateMipMaps_level_count [of float32 5 3 ?t exactOps]
  from inst [THEN conjunct1, rule_format, OF a]
  have first: "length (levels (Texture_init float32 5 3 True))
       = 1 + nat \<lfloor>log 2 (real (max (unat (5 :: u32)) (unat (3 :: u32))))\<rfloor>" .
  from inst [THEN conjunct2, rule_format, OF b]
  obtain t' where r: "generateMipMaps exactOps ?t = Inr t'"
    and n: "length (levels t')
              = 1 + nat \<lfloor>log 2 (real (max (unat (width ?t)) (unat (height ?t))))\<rfloor>"
    and m: "map length (levels t') = map length (levels ?t)"
    and h: "hd (levels t') = hd (levels ?t)"
    and e: "levelWidth ?t (length (levels t') - 1) = 1"
      "levelHeight ?t (length (levels t') - 1) = 1"
    by blast
  from r n m h e
  have second: "\<exists>t'. generateMipMaps exactOps ?t = Inr t'
            \<and> length (levels t') = 1 + nat \<lfloor>log 2 (real (max (unat (2 :: u32)) (unat (2 :: u32))))\<rfloor>
            \<and> map length (levels t')
                = map length [[10, 20, 30, 255,  1, 2, 3, 0,  50, 60, 70, 1,  9, 9, 9, 0 :: u8], [0, 0, 0, 0]]
            \<and> hd (levels t') = [10, 20, 30, 255,  1, 2, 3, 0,  50, 60, 70, 1,  9, 9, 9, 0]
            \<and> levelWidth ?t (length (levels t') - 1) = 1
            \<and> levelHeight ?t (length (levels t') - 1) = 1"
    by simp
  from a first alloc second show ?thesis
    by simp
qed

subsection \<open>Sampling\<close>

text \<open>
  C10. When the texture has no level, \<open>sample\<close> returns the default colour (0, 0, 0, 0)
  for every sampler, null or not, and every coordinate, and does not fail.
\<close>

theorem sample_empty_levels:
  "levels t = [] \<Longrightarrow>
     sample f32 t sampler coord = Inr \<lparr>colorR = 0, colorG = 0, colorB = 0, colorA = 0\<rparr>"
  by (simp add: sample_def defaultColor_def split: option.splits)

theorem sample_empty_levels_witness:
  "levels (Texture_init rgba8 0 7 True) = []
   \<and> sample (\<lambda>b0 b1 b2 b3. 0) (Texture_init rgba8 0 7 True)
        (Some \<lparr>addressModeX = mirrorMode, addressModeY = repeatMode, filterMode = bilinear\<rparr>)
        (3 / 4, 5 / 2)
       = Inr \<lparr>colorR = 0, colorG = 0, colorB = 0, colorA = 0\<rparr>"
proof -
  have empty: "levels (Texture_init rgba8 0 7 True) = []"
    by (simp add: Texture_init_def)
  from sample_empty_levels [OF empty] empty show ?thesis
    by simp
qed

text \<open>
  C3. On a mirror axis the coordinate is \<open>(1 - 2 * |fmod(c / 2, 1) - 0.5|) * (d - 1)\<close>. The
  code has no parentheses around the first factor: it computes
  \<open>1 - (2 * |fmod(c / 2, 1) - 0.5| * (d - 1))\<close>. At \<open>c = 0.5\<close> and \<open>d = 5\<close> that is \<open>-1\<close>,
  where the formula of the claim gives 2.
\<close>

theorem texelCoord_mirror_value:
  "texelCoord mirrorMode (1 / 2) 5 = - 1
   \<and> (1 - 2 * \<bar>fmod ((1 / 2) / 2) 1 - 1 / 2\<bar>) * real (unat ((5 :: u32) - 1)) = 2"
  by (simp add: texelCoord_def fmod_def truncate_def)

text \<open>
  C9. With the point filter and a coordinate in the unit square the rounded texel indices
  lie inside the texture. On a mirror axis they do not, by the expression of C3: at
  \<open>c = 0\<close> on a texture 5 wide the coordinate is \<open>-3\<close>, which no \<open>std::uint32_t\<close> holds;
  on a texture 1 wide the coordinate is 1 for every \<open>c\<close>, so the index is 1 where the only
  column is 0, and \<open>getPixel\<close> reads past the buffer.
\<close>

theorem sample_point_mirror_out_of_range:
  "texelCoord mirrorMode 0 5 = - 3
   \<and> sample (\<lambda>b0 b1 b2 b3. 0) (Texture_init r8 5 1 False)
        (Some \<lparr>addressModeX = mirrorMode, addressModeY = clampMode, filterMode = point\<rparr>) (0, 0)
       = Inl OutOfRange
   \<and> cround (texelCoord mirrorMode 0 1) = 1
   \<and> sample (\<lambda>b0 b1 b2 b3. 0) (Texture_init r8 1 1 False)
        (Some \<lparr>addressModeX = mirrorMode, addressModeY = clampMode, filterMode = point\<rparr>) (0, 0)
       = Inl OutOfRange"
  by (simp add: sample_def texelCoord_def fmod_def truncate_def cround_def toU32_def clamp_def
        getPixel_def Texture_init_def zeroBuffer_def rd_def)

text \<open>
  C4. Bilinear sampling with clamp addressing at the centre of texel \<open>(x, y)\<close>,
  \<open>((x + 0.5) / width, (y + 0.5) / height)\<close>, returns \<open>getPixel(x, y, 0)\<close>. The code scales
  the coordinate by \<open>width - 1\<close> and then weighs the corners as if texel centres lay at
  half-integers. On the 2x1 R8 texture with bytes 0 and 255, at the centre \<open>(0.25, 0.5)\<close>
  of texel \<open>(0, 0)\<close>, the weights of the two columns are \<open>1.25\<close> and \<open>-0.25\<close> and the
  result has colour \<open>-0.25\<close>, where \<open>getPixel(0, 0, 0)\<close> has colour 0.
\<close>

theorem sample_bilinear_texel_centre:
  "sample (\<lambda>b0 b1 b2 b3. 0)
      \<lparr>pixelFormat = r8, width = 2, height = 1, mipMaps = False, levels = [[0, 255]]\<rparr>
      (Some \<lparr>addressModeX = clampMode, addressModeY = clampMode, filterMode = bilinear\<rparr>)
      (1 / 4, 1 / 2)
     = Inr \<lparr>colorR = - 1 / 4, colorG = - 1 / 4, colorB = - 1 / 4, colorA = 1\<rparr>
   \<and> getPixel (\<lambda>b0 b1 b2 b3. 0)
      \<lparr>pixelFormat = r8, width = 2, height = 1, mipMaps = False, levels = [[0, 255]]\<rparr> 0 0 0
     = Inr \<lparr>colorR = 0, colorG = 0, colorB = 0, colorA = 1\<rparr>"
proof -
  let ?t = "\<lparr>pixelFormat = r8, width = 2, height = 1, mipMaps = False, levels = [[0, 255]]\<rparr>"
  let ?f = "\<lambda>(b0::u8) (b1::u8) (b2::u8) (b3::u8). 0::real"
  have u: "texelCoord clampMode (1 / 4) 2 = 1 / 4"
    by (simp add: texelCoord_def clamp_def)
  have v: "texelCoord clampMode (1 / 2) 1 = 0"
    by (simp add: texelCoord_def clamp_def)
  have tx: "toU32 (- (1 / 4)) = Some 0"
    by (simp add: toU32_def truncate_def ceiling_def)
  have ty: "toU32 (- (1 / 2)) = Some 0"
    by (simp add: toU32_def truncate_def ceiling_def)
  have p0: "getPixel ?f ?t 0 0 0 = Inr \<lparr>colorR = 0, colorG = 0, colorB = 0, colorA = 1\<rparr>"
    by (simp add: getPixel_def rd_def byteColor_def)
  have p1: "getPixel ?f ?t 1 0 0 = Inr \<lparr>colorR = 1, colorG = 1, colorB = 1, colorA = 1\<rparr>"
    by (simp add: getPixel_def rd_def byteColor_def)
  have "sample ?f ?t
      (Some \<lparr>addressModeX = clampMode, addressModeY = clampMode, filterMode = bilinear\<rparr>)
      (1 / 4, 1 / 2)
     = Inr \<lparr>colorR = - 1 / 4, colorG = - 1 / 4, colorB = - 1 / 4, colorA = 1\<rparr>"
    unfolding sample_def
    by (simp add: u v tx ty p0 p1 clamp_def blend_def Let_def)
  with p0 show ?thesis by simp
qed

end
